theory Spec2Isabelle
  imports Complex_Main "HOL-Library.Word"
begin

section \<open>Machine integers and rationals of the media framework\<close>

text \<open>
  The C \<open>int\<close> variables \<open>duration\<close>, \<open>timescale\<close> and \<open>segment\<close> of \<open>main\<close> and the two
  fields of an \<open>AVRational\<close> are 32-bit words; timestamps (\<open>int64_t\<close>) are 64-bit words.
  \<open>sint\<close> reads a word as the signed value the C program sees.
\<close>

definition INT64_MAX :: int where
  "INT64_MAX = 2 ^ 63 - 1"

definition INT64_MIN :: int where
  "INT64_MIN = - (2 ^ 63)"

record AVRational =
  num :: "32 word"
  den :: "32 word"

text \<open>
  Modelled from the spec: \<open>AV_TIME_BASE\<close> is a macro of the external media framework
  (the spec's GLOBAL_TICKS_PER_SECOND); its value there is one million ticks per second.
\<close>

definition AV_TIME_BASE :: "32 word" where
  "AV_TIME_BASE = 1000000"

text \<open>
  Modelled from the spec: \<open>av_rescale_q\<close> belongs to the external media framework and has
  no source under src/. The spec gives it as rational rescaling,
  \<open>round (a * bq / cq)\<close>. The framework computes \<open>b = bq.num * cq.den\<close> and
  \<open>c = cq.num * bq.den\<close> in 64 bits (two 32-bit factors, so the products are exact), rounds
  \<open>a * b / c\<close> to the nearest integer with halves away from zero, and documents the result
  \<open>INT64_MIN\<close> when \<open>c\<close> is not positive, \<open>b\<close> is negative or the quotient is not
  representable in 64 bits.
\<close>

definition av_rescale_near_inf :: "int \<Rightarrow> int \<Rightarrow> int \<Rightarrow> int" where
  "av_rescale_near_inf a b c =
     (if c \<le> 0 \<or> b < 0 then INT64_MIN
      else let m = (\<bar>max a (- INT64_MAX)\<bar> * b + c div 2) div c
           in if m > INT64_MAX then INT64_MIN
              else if a < 0 then - m else m)"

definition av_rescale_q :: "64 word \<Rightarrow> AVRational \<Rightarrow> AVRational \<Rightarrow> 64 word" where
  "av_rescale_q a bq cq =
     word_of_int (av_rescale_near_inf (sint a)
        (sint (num bq) * sint (den cq)) (sint (num cq) * sint (den bq)))"

subsection \<open>Timestamps of a segment (vodtool.c)\<close>

text \<open>\<open>to_av_timebase\<close> of vodtool.c: rescale from \<open>timebase\<close> to \<open>{1, AV_TIME_BASE}\<close>.\<close>

definition to_av_timebase :: "64 word \<Rightarrow> AVRational \<Rightarrow> 64 word" where
  "to_av_timebase timestamp timebase =
     av_rescale_q timestamp timebase \<lparr>num = 1, den = AV_TIME_BASE\<rparr>"

text \<open>
  Lines 170 and 171 of \<open>main\<close>: the \<open>int\<close> argument is converted to \<open>int64_t\<close> (sign
  extension); \<open>segment+1\<close> is computed in \<open>int\<close>, where the model wraps around.
\<close>

definition start_timestamp :: "32 word \<Rightarrow> 32 word \<Rightarrow> 32 word \<Rightarrow> 64 word" where
  "start_timestamp segment duration timescale =
     to_av_timebase (scast segment) \<lparr>num = duration, den = timescale\<rparr>"

definition end_timestamp :: "32 word \<Rightarrow> 32 word \<Rightarrow> 32 word \<Rightarrow> 64 word" where
  "end_timestamp segment duration timescale =
     to_av_timebase (scast (segment + 1)) \<lparr>num = duration, den = timescale\<rparr>"

subsection \<open>Timestamps of a segment (the third variant)\<close>

text \<open>
  \<open>to_av_timebase\<close> of the third variant rescales from \<open>{AV_TIME_BASE, 1}\<close> to its
  argument, and \<open>main\<close> passes \<open>{timescale, duration}\<close>.
\<close>

definition to_av_timebase3 :: "64 word \<Rightarrow> AVRational \<Rightarrow> 64 word" where
  "to_av_timebase3 timestamp timebase =
     av_rescale_q timestamp \<lparr>num = AV_TIME_BASE, den = 1\<rparr> timebase"

definition start_timestamp3 :: "32 word \<Rightarrow> 32 word \<Rightarrow> 32 word \<Rightarrow> 64 word" where
  "start_timestamp3 segment duration timescale =
     to_av_timebase3 (scast segment) \<lparr>num = timescale, den = duration\<rparr>"

definition end_timestamp3 :: "32 word \<Rightarrow> 32 word \<Rightarrow> 32 word \<Rightarrow> 64 word" where
  "end_timestamp3 segment duration timescale =
     to_av_timebase3 (scast (segment + 1)) \<lparr>num = timescale, den = duration\<rparr>"

section \<open>Text output\<close>

text \<open>
  \<open>show_int\<close> is what \<open>printf\<close> makes of \<open>%d\<close> and \<open>%lld\<close>: the decimal digits, with a
  minus sign for a negative number.
\<close>

definition digit_char :: "nat \<Rightarrow> char" where
  "digit_char n = ''0123456789'' ! (n mod 10)"

fun show_nat :: "nat \<Rightarrow> string" where
  "show_nat n =
     (if n < 10 then [digit_char n]
      else show_nat (n div 10) @ [digit_char (n mod 10)])"

definition show_int :: "int \<Rightarrow> string" where
  "show_int i = (if i < 0 then CHR ''-'' # show_nat (nat (- i)) else show_nat (nat i))"

text \<open>
  \<open>atoi\<close> of the C library: leading white space is skipped, an optional sign is read, then
  the longest run of decimal digits; with no digit the result is 0 and nothing is reported.
  A value outside \<open>int\<close> is undefined in C; the model truncates it to 32 bits.
\<close>

definition isspace :: "char \<Rightarrow> bool" where
  "isspace c = (c = CHR '' '' \<or> (9 \<le> (of_char c :: nat) \<and> (of_char c :: nat) \<le> 13))"

definition isdigit :: "char \<Rightarrow> bool" where
  "isdigit c = (48 \<le> (of_char c :: nat) \<and> (of_char c :: nat) \<le> 57)"

fun digits_value :: "int \<Rightarrow> string \<Rightarrow> int" where
  "digits_value acc [] = acc"
| "digits_value acc (c # cs) =
     (if isdigit c then digits_value (acc * 10 + (of_char c - 48)) cs else acc)"

definition atoi :: "string \<Rightarrow> 32 word" where
  "atoi str =
     (case dropWhile isspace str of
        [] \<Rightarrow> 0
      | c # cs \<Rightarrow>
          if c = CHR ''-'' then word_of_int (- digits_value 0 cs)
          else if c = CHR ''+'' then word_of_int (digits_value 0 cs)
          else word_of_int (digits_value 0 (c # cs)))"

section \<open>The process and its surroundings\<close>

text \<open>
  How a run ends: \<open>exit\<close> with a status, falling off the end of \<open>main\<close> (status 0 in C99),
  undefined behaviour (a null pointer dereferenced, a read outside a buffer), or, for a
  finite list of answers of the demuxer, the point where the list is used up while the loop
  is still running.
\<close>

datatype ending = Exit int | Return_from_main | Undefined_behaviour | Awaiting_input

fun exit_status :: "ending \<Rightarrow> int option" where
  "exit_status (Exit n) = Some n"
| "exit_status Return_from_main = Some 0"
| "exit_status Undefined_behaviour = None"
| "exit_status Awaiting_input = None"

text \<open>The calls of the scan loop into the framework; the flag of
  \<open>Avcodec_receive_frame\<close> says whether the frame pointer passed is non-null.\<close>

datatype call =
    Av_read_frame
  | Av_packet_unref
  | Avcodec_send_packet
  | Avcodec_receive_frame bool

text \<open>What the process leaves behind: the lines written to the error stream by its own
  \<open>fprintf\<close> calls, the calls of the scan loop, and the files written (name and contents).\<close>

record world =
  err :: "string list"
  trace :: "call list"
  files :: "(string \<times> string) list"

definition fprintf_stderr :: "string \<Rightarrow> world \<Rightarrow> world" where
  "fprintf_stderr s w = w\<lparr>err := err w @ [s]\<rparr>"

definition calling :: "call \<Rightarrow> world \<Rightarrow> world" where
  "calling c w = w\<lparr>trace := trace w @ [c]\<rparr>"

datatype AVMediaType = AVMEDIA_TYPE_VIDEO | AVMEDIA_TYPE_AUDIO

fun av_get_media_type_string :: "AVMediaType \<Rightarrow> string" where
  "av_get_media_type_string AVMEDIA_TYPE_VIDEO = ''video''"
| "av_get_media_type_string AVMEDIA_TYPE_AUDIO = ''audio''"

text \<open>
  A pointer to bytes (\<open>unsigned char *\<close>): the block of memory it points into and the
  position in the block it points at. Pointer arithmetic moves the position, up or down.
\<close>

record byte_ptr =
  mem :: string
  addr :: int

text \<open>
  A decoded frame, as far as the program reads it: \<open>pts\<close>, \<open>width\<close>, \<open>height\<close>, the
  pointer \<open>data[0]\<close> into the buffer of the first plane, and \<open>linesize[0]\<close>. A frame
  stored bottom-up has a negative \<open>linesize[0]\<close> and \<open>data[0]\<close> at its last row in
  memory. The three C \<open>int\<close> fields are integers here; the program only prints them and
  indexes the plane with them (\<open>i * wrap\<close> stays far inside \<open>int\<close> for a plane that
  exists).
\<close>

record AVFrame =
  pts :: "64 word"
  width :: int
  height :: int
  data0 :: byte_ptr
  linesize0 :: int

text \<open>
  The answers of the framework during one pass through the body of the scan loop: the
  result of \<open>av_read_frame\<close> and the \<open>stream_index\<close> the packet holds after it, the result
  of \<open>avcodec_send_packet\<close>, the result of \<open>avcodec_receive_frame\<close> and the frame it
  filled in. The last three are consulted only when the program makes the call.
\<close>

record iteration =
  read_ret :: int
  pkt_stream_index :: int
  send_ret :: int
  receive_ret :: int
  decoded :: AVFrame

text \<open>
  Everything outside the program: what \<open>getopt_long\<close> returns call after call (the option
  character with \<open>optarg\<close>) until it returns -1, the operands left at \<open>argv[optind]\<close>,
  the results of the framework's calls, the time base of the selected video stream, the
  value of \<open>AVERROR(EAGAIN)\<close> on the platform, and whether \<open>fopen\<close> succeeds.
\<close>

record env =
  argv0 :: string
  getopt_results :: "(char \<times> string) list"
  operands :: "string list"
  avformat_open_input :: int
  avformat_find_stream_info :: int
  av_err2str :: "int \<Rightarrow> string"
  av_find_best_stream :: "AVMediaType \<Rightarrow> int"
  avcodec_find_decoder :: bool
  avcodec_parameters_to_context :: int
  avcodec_open2 :: int
  avformat_seek_file :: int
  av_frame_alloc :: bool
  video_time_base :: AVRational
  averror_eagain :: int
  fopen_ok :: bool
  packets :: "iteration list"

section \<open>The functions of vodtool.c\<close>

definition usage_text :: "string \<Rightarrow> string list" where
  "usage_text cmd_name =
     [''usage: '' @ cmd_name @ '' [options] infile\<newline>'',
      ''\<newline>'',
      ''Extracts and transcodes the specified segment'',
      ''Options:\<newline>'',
      [CHR 0x09] @ ''-d, --duration'' @ [CHR 0x09]
        @ ''The duration in timescale units of each segment.'' @ [CHR 0x09]
        @ ''Default Value: 5\<newline>'',
      [CHR 0x09] @ ''-t, --timescale'' @ [CHR 0x09]
        @ ''The number of units in a second.'' @ [CHR 0x09] @ ''Default Value: 1\<newline>'',
      [CHR 0x09] @ ''-s, --segment'' @ [CHR 0x09]
        @ ''The segment to fetch.'' @ [CHR 0x09] @ ''Default Value:0\<newline>'']"

text \<open>\<open>usage\<close> prints to the error stream and calls \<open>exit(1)\<close>.\<close>

definition usage :: "string \<Rightarrow> world \<Rightarrow> ending \<times> world" where
  "usage cmd_name w = (Exit 1, w\<lparr>err := err w @ usage_text cmd_name\<rparr>)"

text \<open>The helpers that may call \<open>exit\<close> return \<open>Inl\<close> with the end of the process, or
  \<open>Inr\<close> with their result.\<close>

definition open_input_file :: "env \<Rightarrow> string \<Rightarrow> world \<Rightarrow> (ending \<times> world) + world" where
  "open_input_file e filename w =
     (if avformat_open_input e < 0 then
        Inl (Exit 1, fprintf_stderr (''Could not open '' @ filename @ '': ''
               @ av_err2str e (avformat_open_input e) @ ''\<newline>'') w)
      else if avformat_find_stream_info e < 0 then
        Inl (Exit 1, fprintf_stderr (''Could not find codec parameters for '' @ filename @ '': ''
               @ av_err2str e (avformat_find_stream_info e) @ ''\<newline>'') w)
      else Inr w)"

definition find_best_stream :: "env \<Rightarrow> AVMediaType \<Rightarrow> world \<Rightarrow> (ending \<times> world) + int" where
  "find_best_stream e type w =
     (let best_stream = av_find_best_stream e type
      in if best_stream < 0 then
           Inl (Exit 1, fprintf_stderr (''Could not find stream of type ''
                  @ av_get_media_type_string type @ ''\<newline>'') w)
         else Inr best_stream)"

definition seek_to_timestamp :: "env \<Rightarrow> world \<Rightarrow> (ending \<times> world) + world" where
  "seek_to_timestamp e w =
     (if avformat_seek_file e < 0 then Inl (Exit 1, fprintf_stderr ''Could not seek\<newline>'' w)
      else Inr w)"

subsection \<open>pgm_save\<close>

text \<open>
  \<open>fwrite(buf + off, 1, xsize, f)\<close>: the \<open>xsize\<close> bytes from the position \<open>buf + off\<close>,
  which may lie below \<open>buf\<close>. With a count of 0 nothing is read. A read that leaves the
  block (or a negative \<open>xsize\<close>, which \<open>size_t\<close> turns into a huge count) is undefined in
  C: \<open>None\<close>.
\<close>

definition fwrite_row :: "byte_ptr \<Rightarrow> int \<Rightarrow> int \<Rightarrow> string option" where
  "fwrite_row buf off xsize =
     (if xsize = 0 then Some []
      else if 0 \<le> addr buf + off \<and> 0 < xsize \<and> addr buf + off + xsize \<le> int (length (mem buf))
      then Some (take (nat xsize) (drop (nat (addr buf + off)) (mem buf))) else None)"

text \<open>The \<open>for\<close> loop of \<open>pgm_save\<close>, from row \<open>i\<close> on.\<close>

function fwrite_rows :: "byte_ptr \<Rightarrow> int \<Rightarrow> int \<Rightarrow> int \<Rightarrow> int \<Rightarrow> string option" where
  "fwrite_rows buf wrap xsize ysize i =
     (if i < ysize then
        (case fwrite_row buf (i * wrap) xsize of
           None \<Rightarrow> None
         | Some r \<Rightarrow>
             (case fwrite_rows buf wrap xsize ysize (i + 1) of
                None \<Rightarrow> None
              | Some rs \<Rightarrow> Some (r @ rs)))
      else Some [])"
  by pat_completeness auto
termination
  by (relation "measure (\<lambda>(buf, wrap, xsize, ysize, i). nat (ysize - i))") auto

declare fwrite_rows.simps [simp del]

definition pgm_header :: "int \<Rightarrow> int \<Rightarrow> string" where
  "pgm_header xsize ysize =
     ''P5\<newline>'' @ show_int xsize @ '' '' @ show_int ysize @ ''\<newline>'' @ show_int 255 @ ''\<newline>''"

text \<open>
  \<open>pgm_save\<close> yields the file it writes. The result of \<open>fopen\<close> is not checked, so a failed
  \<open>fopen\<close> passes a null stream to \<open>fprintf\<close>: undefined, \<open>None\<close>, as is a row outside the
  block \<open>buf\<close> points into.
\<close>

definition pgm_save ::
  "bool \<Rightarrow> byte_ptr \<Rightarrow> int \<Rightarrow> int \<Rightarrow> int \<Rightarrow> string \<Rightarrow> (string \<times> string) option" where
  "pgm_save fopen_succeeds buf wrap xsize ysize filename =
     (if \<not> fopen_succeeds then None
      else case fwrite_rows buf wrap xsize ysize 0 of
             None \<Rightarrow> None
           | Some rows \<Rightarrow> Some (filename, pgm_header xsize ysize @ rows))"

subsection \<open>Comparing timestamps\<close>

text \<open>
  Modelled from the spec: \<open>av_compare_ts\<close> belongs to the external media framework and has
  no source under src/. It compares two timestamps, each in its own time base, and
  returns -1, 0 or 1; the framework does so exactly, on the cross products
  \<open>ts_a * (tb_a.num * tb_b.den)\<close> and \<open>ts_b * (tb_b.num * tb_a.den)\<close>, as long as each
  timestamp can be represented in the other's time base.
\<close>

definition av_compare_ts :: "64 word \<Rightarrow> AVRational \<Rightarrow> 64 word \<Rightarrow> AVRational \<Rightarrow> int" where
  "av_compare_ts ts_a tb_a ts_b tb_b =
     (let a = sint (num tb_a) * sint (den tb_b);
          b = sint (num tb_b) * sint (den tb_a);
          l = sint ts_a * a;
          r = sint ts_b * b
      in if l < r then - 1 else if r < l then 1 else 0)"

subsection \<open>The scan loop of main\<close>

text \<open>
  Lines 181 to 217. Each call of \<open>scan_loop\<close> starts one pass through the body, the
  condition \<open>ret >= 0\<close> having held. \<open>continue\<close> jumps to the condition with \<open>ret\<close> still
  the result of \<open>av_read_frame\<close>; at the end of the body \<open>ret\<close> is 0 (after the try-again
  result) or the non-negative result of \<open>avcodec_receive_frame\<close>, so the loop goes on.
  With a null \<open>frame\<close>, reading \<open>frame->pts\<close> is undefined.
\<close>

fun scan_loop :: "env \<Rightarrow> int \<Rightarrow> 64 word \<Rightarrow> iteration list \<Rightarrow> world \<Rightarrow> ending \<times> world" where
  "scan_loop e best_video_stream start [] w = (Awaiting_input, w)"
| "scan_loop e best_video_stream start (it # its) w =
     (let w1 = calling Av_read_frame w in
      if pkt_stream_index it \<noteq> best_video_stream then
        (let w2 = calling Av_packet_unref w1 in
         if 0 \<le> read_ret it then scan_loop e best_video_stream start its w2
         else (Return_from_main, w2))
      else
        (let w2 = calling Avcodec_send_packet w1 in
         if send_ret it < 0 then (Exit 1, fprintf_stderr ''Could not send packet\<newline>'' w2)
         else
           (let w3 = calling (Avcodec_receive_frame (av_frame_alloc e)) w2 in
            if receive_ret it = averror_eagain e then
              scan_loop e best_video_stream start its (calling Av_packet_unref w3)
            else if receive_ret it < 0 then
              (Exit 1, fprintf_stderr ''Didn't get frame\<newline>'' w3)
            else if \<not> av_frame_alloc e then (Undefined_behaviour, w3)
            else if 0 \<le> av_compare_ts (pts (decoded it)) (video_time_base e) start
                          \<lparr>num = 1, den = AV_TIME_BASE\<rparr> then
              (let w4 = fprintf_stderr (''saving frame av base timestamp=''
                          @ show_int (sint (to_av_timebase (pts (decoded it)) (video_time_base e)))
                          @ ''\<newline>'') w3
               in case pgm_save (fopen_ok e) (data0 (decoded it)) (linesize0 (decoded it))
                         (width (decoded it)) (height (decoded it)) ''test.pgm'' of
                    None \<Rightarrow> (Undefined_behaviour, w4)
                  | Some file \<Rightarrow> (Exit 0, w4\<lparr>files := files w4 @ [file]\<rparr>))
            else scan_loop e best_video_stream start its (calling Av_packet_unref w3))))"

subsection \<open>main\<close>

record options =
  duration :: "32 word"
  timescale :: "32 word"
  segment :: "32 word"

definition default_options :: options where
  "default_options = \<lparr>duration = 5, timescale = 1, segment = 0\<rparr>"

text \<open>The option loop: \<open>None\<close> when \<open>usage\<close> is called (for \<open>h\<close> and for \<open>?\<close>, which
  \<open>getopt_long\<close> returns for an unknown option or a missing argument).\<close>

fun parse_options :: "(char \<times> string) list \<Rightarrow> options \<Rightarrow> options option" where
  "parse_options [] opts = Some opts"
| "parse_options ((option, optarg) # rest) opts =
     (if option = CHR ''d'' then parse_options rest (opts\<lparr>duration := atoi optarg\<rparr>)
      else if option = CHR ''t'' then parse_options rest (opts\<lparr>timescale := atoi optarg\<rparr>)
      else if option = CHR ''s'' then parse_options rest (opts\<lparr>segment := atoi optarg\<rparr>)
      else if option = CHR ''h'' \<or> option = CHR ''?'' then None
      else parse_options rest opts)"

definition timestamps_line :: "options \<Rightarrow> string" where
  "timestamps_line opts =
     ''start_timestamp=''
       @ show_int (sint (start_timestamp (segment opts) (duration opts) (timescale opts)))
       @ '';end_timestamp=''
       @ show_int (sint (end_timestamp (segment opts) (duration opts) (timescale opts)))
       @ ''\<newline>''"

definition world0 :: world where
  "world0 = \<lparr>err = [], trace = [], files = []\<rparr>"

text \<open>
  \<open>main\<close>, in the order of the source. \<open>av_register_all\<close>, \<open>av_dump_format\<close> and the
  \<open>discard\<close> flags set on the other streams act inside the framework only; its answers
  are those of the environment. \<open>avcodec_alloc_context3\<close>, whose result the source does not
  test, is taken to succeed.
\<close>

definition main :: "env \<Rightarrow> ending \<times> world" where
  "main e =
     (case parse_options (getopt_results e) default_options of
        None \<Rightarrow> usage (argv0 e) world0
      | Some opts \<Rightarrow>
          if length (operands e) \<noteq> 1 then usage (argv0 e) world0
          else
            (case open_input_file e (hd (operands e)) world0 of
               Inl stop \<Rightarrow> stop
             | Inr w \<Rightarrow>
                (case find_best_stream e AVMEDIA_TYPE_VIDEO w of
                   Inl stop \<Rightarrow> stop
                 | Inr best_video_stream \<Rightarrow>
                    (case find_best_stream e AVMEDIA_TYPE_AUDIO w of
                       Inl stop \<Rightarrow> stop
                     | Inr best_audio_stream \<Rightarrow>
                        if \<not> avcodec_find_decoder e then (Exit 1, w)
                        else if avcodec_parameters_to_context e < 0 then (Exit 1, w)
                        else if avcodec_open2 e < 0 then
                          (Exit 1, fprintf_stderr ''Could not open input codec\<newline>'' w)
                        else
                          (let start = start_timestamp (segment opts) (duration opts) (timescale opts);
                               w1 = fprintf_stderr (timestamps_line opts) w
                           in case seek_to_timestamp e w1 of
                                Inl stop \<Rightarrow> stop
                              | Inr w2 \<Rightarrow>
                                  (let w3 = (if av_frame_alloc e then w2
                                             else fprintf_stderr ''Could not allocate frame\<newline>'' w2)
                                   in scan_loop e best_video_stream start (packets e) w3))))))"

section \<open>Notions used to state the properties\<close>

text \<open>The iteration hands the loop on to the next one: a packet of another stream read
  without error, or a video packet the decoder accepted, with the try-again result or with
  a frame that lies before \<open>start\<close>.\<close>

definition continues :: "env \<Rightarrow> int \<Rightarrow> 64 word \<Rightarrow> iteration \<Rightarrow> bool" where
  "continues e best_video_stream start it =
     (if pkt_stream_index it \<noteq> best_video_stream then 0 \<le> read_ret it
      else 0 \<le> send_ret it \<and>
           (receive_ret it = averror_eagain e \<or>
            (0 \<le> receive_ret it \<and> av_frame_alloc e \<and>
             av_compare_ts (pts (decoded it)) (video_time_base e) start
               \<lparr>num = 1, den = AV_TIME_BASE\<rparr> < 0)))"

text \<open>The iteration gives the program a decoded frame of the selected video stream.\<close>

definition decodes :: "env \<Rightarrow> int \<Rightarrow> iteration \<Rightarrow> bool" where
  "decodes e best_video_stream it =
     (pkt_stream_index it = best_video_stream \<and> 0 \<le> send_ret it \<and>
      receive_ret it \<noteq> averror_eagain e \<and> 0 \<le> receive_ret it)"

text \<open>The calls of an iteration that continues.\<close>

definition pass_trace :: "env \<Rightarrow> int \<Rightarrow> iteration \<Rightarrow> call list" where
  "pass_trace e best_video_stream it =
     (if pkt_stream_index it \<noteq> best_video_stream then [Av_read_frame, Av_packet_unref]
      else [Av_read_frame, Avcodec_send_packet, Avcodec_receive_frame (av_frame_alloc e),
            Av_packet_unref])"

text \<open>A timestamp of a stream in ticks of the global time base, as the rational number
  \<open>ts * tb * AV_TIME_BASE\<close> (no rounding).\<close>

definition rescaled :: "64 word \<Rightarrow> AVRational \<Rightarrow> real" where
  "rescaled ts tb =
     real_of_int (sint ts) * real_of_int (sint (num tb)) / real_of_int (sint (den tb))
       * real_of_int (sint AV_TIME_BASE)"

text \<open>Every step of \<open>main\<close> before the scan loop succeeds.\<close>

definition reaches_scan_loop :: "env \<Rightarrow> bool" where
  "reaches_scan_loop e =
     (parse_options (getopt_results e) default_options \<noteq> None \<and>
      length (operands e) = 1 \<and>
      0 \<le> avformat_open_input e \<and> 0 \<le> avformat_find_stream_info e \<and>
      0 \<le> av_find_best_stream e AVMEDIA_TYPE_VIDEO \<and>
      0 \<le> av_find_best_stream e AVMEDIA_TYPE_AUDIO \<and>
      avcodec_find_decoder e \<and> 0 \<le> avcodec_parameters_to_context e \<and>
      0 \<le> avcodec_open2 e \<and> 0 \<le> avformat_seek_file e)"

text \<open>The error stream when the scan loop is entered.\<close>

definition world_at_loop :: "env \<Rightarrow> options \<Rightarrow> world" where
  "world_at_loop e opts =
     (let w1 = fprintf_stderr (timestamps_line opts) world0
      in if av_frame_alloc e then w1
         else fprintf_stderr ''Could not allocate frame\<newline>'' w1)"

text \<open>The rows of a frame as the spec has them in the file: \<open>height\<close> rows of
  \<open>width\<close> bytes, row \<open>i\<close> taken at \<open>data[0] + i * linesize[0]\<close>.\<close>

definition luma_rows :: "AVFrame \<Rightarrow> string" where
  "luma_rows f =
     concat (map (\<lambda>i. take (nat (width f))
                        (drop (nat (addr (data0 f) + int i * linesize0 f)) (mem (data0 f))))
               [0..<nat (height f)])"

section \<open>A concrete run\<close>

text \<open>
  An invocation \<open>vodtool -s 12 in.mkv\<close> on a container whose stream 0 is video in a
  time base of one second and whose stream 1 is audio. The demuxer delivers an audio
  packet, a video packet for which the decoder wants more input, then video packets whose
  frames are at 59 and at 60 seconds. The frames are 3 by 2 pixels in rows of 4 bytes.
\<close>

definition frame_59 :: AVFrame where
  "frame_59 =
     \<lparr>pts = 59, width = 3, height = 2, data0 = \<lparr>mem = ''uvw-xyz-'', addr = 0\<rparr>,
      linesize0 = 4\<rparr>"

definition frame_60 :: AVFrame where
  "frame_60 =
     \<lparr>pts = 60, width = 3, height = 2, data0 = \<lparr>mem = ''abc-def-'', addr = 0\<rparr>,
      linesize0 = 4\<rparr>"

definition audio_packet :: iteration where
  "audio_packet =
     \<lparr>read_ret = 0, pkt_stream_index = 1, send_ret = 0, receive_ret = 0, decoded = frame_59\<rparr>"

definition try_again_packet :: iteration where
  "try_again_packet =
     \<lparr>read_ret = 0, pkt_stream_index = 0, send_ret = 0, receive_ret = - 11, decoded = frame_59\<rparr>"

definition early_packet :: iteration where
  "early_packet =
     \<lparr>read_ret = 0, pkt_stream_index = 0, send_ret = 0, receive_ret = 0, decoded = frame_59\<rparr>"

definition target_packet :: iteration where
  "target_packet =
     \<lparr>read_ret = 0, pkt_stream_index = 0, send_ret = 0, receive_ret = 0, decoded = frame_60\<rparr>"

definition example_packets :: "iteration list" where
  "example_packets = [audio_packet, try_again_packet, early_packet, target_packet]"

definition example_env :: env where
  "example_env =
     \<lparr>argv0 = ''vodtool'', getopt_results = [(CHR ''s'', ''12'')], operands = [''in.mkv''],
      avformat_open_input = 0, avformat_find_stream_info = 0, av_err2str = (\<lambda>_. ''error''),
      av_find_best_stream = (\<lambda>t. case t of AVMEDIA_TYPE_VIDEO \<Rightarrow> 0 | AVMEDIA_TYPE_AUDIO \<Rightarrow> 1),
      avcodec_find_decoder = True, avcodec_parameters_to_context = 0, avcodec_open2 = 0,
      avformat_seek_file = 0, av_frame_alloc = True, video_time_base = \<lparr>num = 1, den = 1\<rparr>,
      averror_eagain = - 11, fopen_ok = True, packets = example_packets\<rparr>"

definition example_options :: options where
  "example_options = \<lparr>duration = 5, timescale = 1, segment = 12\<rparr>"

definition example_world :: world where
  "example_world =
     \<lparr>err = [''start_timestamp=60000000;end_timestamp=65000000\<newline>'',
             ''saving frame av base timestamp=60000000\<newline>''],
      trace = [Av_read_frame, Av_packet_unref,
               Av_read_frame, Avcodec_send_packet, Avcodec_receive_frame True, Av_packet_unref,
               Av_read_frame, Avcodec_send_packet, Avcodec_receive_frame True, Av_packet_unref,
               Av_read_frame, Avcodec_send_packet, Avcodec_receive_frame True],
      files = [(''test.pgm'', ''P5\<newline>3 2\<newline>255\<newline>abcdef'')]\<rparr>"

text \<open>
  The end of the file on a container whose video stream is stream 0: \<open>av_read_frame\<close>
  fails with \<open>AVERROR_EOF\<close> and leaves a blank packet (\<open>stream_index\<close> 0), the decoder
  takes the blank packet as the request to drain, and has no frame left.
\<close>

definition AVERROR_EOF :: int where
  "AVERROR_EOF = - 541478725"

definition drained_packet :: iteration where
  "drained_packet =
     \<lparr>read_ret = AVERROR_EOF, pkt_stream_index = 0, send_ret = 0, receive_ret = AVERROR_EOF,
      decoded = frame_59\<rparr>"

text \<open>The same run when \<open>av_frame_alloc\<close> fails.\<close>

definition no_frame_env :: env where
  "no_frame_env = example_env\<lparr>av_frame_alloc := False\<rparr>"

text \<open>
  Runs for segment 12 on files that end after the frame at 59 seconds: the container above
  (the blank packet of the failed read carries the index of the video stream), and a
  container whose video stream is stream 1.
\<close>

definition eof_env :: env where
  "eof_env =
     example_env\<lparr>packets := [audio_packet, try_again_packet, early_packet, drained_packet]\<rparr>"

definition other_video_packet :: iteration where
  "other_video_packet =
     \<lparr>read_ret = 0, pkt_stream_index = 1, send_ret = 0, receive_ret = 0, decoded = frame_59\<rparr>"

definition eof_other_env :: env where
  "eof_other_env =
     example_env\<lparr>av_find_best_stream :=
                    (\<lambda>t. case t of AVMEDIA_TYPE_VIDEO \<Rightarrow> 1 | AVMEDIA_TYPE_AUDIO \<Rightarrow> 0),
                  packets := [other_video_packet, drained_packet]\<rparr>"

text \<open>An invocation with \<open>-h\<close>, and one with a value of \<open>-d\<close> that is not a number.\<close>

definition help_env :: env where
  "help_env = example_env\<lparr>getopt_results := [(CHR ''s'', ''12''), (CHR ''h'', [])]\<rparr>"



text \<open>
  The frame at 60 seconds stored bottom-up: \<open>data[0]\<close> points at the top row of the image,
  which lies last in memory, and \<open>linesize[0]\<close> is negative.
\<close>

definition bottom_up_frame_60 :: AVFrame where
  "bottom_up_frame_60 =
     \<lparr>pts = 60, width = 3, height = 2, data0 = \<lparr>mem = ''def-abc-'', addr = 4\<rparr>,
      linesize0 = - 4\<rparr>"

definition bottom_up_packet :: iteration where
  "bottom_up_packet =
     \<lparr>read_ret = 0, pkt_stream_index = 0, send_ret = 0, receive_ret = 0,
      decoded = bottom_up_frame_60\<rparr>"

definition bottom_up_env :: env where
  "bottom_up_env = example_env\<lparr>packets := [bottom_up_packet]\<rparr>"

definition bottom_up_world :: world where
  "bottom_up_world =
     \<lparr>err = [''start_timestamp=60000000;end_timestamp=65000000\<newline>'',
             ''saving frame av base timestamp=60000000\<newline>''],
      trace = [Av_read_frame, Avcodec_send_packet, Avcodec_receive_frame True],
      files = [(''test.pgm'', ''P5\<newline>3 2\<newline>255\<newline>abcdef'')]\<rparr>"

section \<open>Rescaling\<close>

lemma sint_scast_32_64: "sint (scast (s :: 32 word) :: 64 word) = sint s"
  by (rule sint_up_scast) (simp add: is_up)

lemma sint_word_of_int_64:
  "INT64_MIN \<le> x \<Longrightarrow> x \<le> INT64_MAX \<Longrightarrow> sint (word_of_int x :: 64 word) = x"
  by (simp add: sint_sbintrunc' signed_take_bit_int_eq_self INT64_MIN_def INT64_MAX_def)

lemma sint_AV_TIME_BASE: "sint AV_TIME_BASE = 1000000"
  by (simp add: AV_TIME_BASE_def)

text \<open>Adding half the divisor before an integer division rounds to the nearest integer.\<close>

lemma near_round:
  assumes "0 < c"
  shows "(n + c div 2) div c = round (real_of_int n / real_of_int c)"
proof -
  have "round (real_of_int n / real_of_int c)
          = \<lfloor>real_of_int (2 * n + c) / real_of_int (2 * c)\<rfloor>"
    using assms by (simp add: round_def field_simps)
  also have "\<dots> = (2 * n + c) div (2 * c)"
    by (rule floor_divide_of_int_eq)
  also have "\<dots> = ((2 * n + c) div 2) div c"
    using assms by (simp add: zdiv_zmult2_eq)
  also have "(2 * n + c) div 2 = n + c div 2"
    by presburger
  finally show ?thesis by simp
qed

lemma av_rescale_near_inf_round:
  assumes "0 \<le> a" "0 \<le> b" "0 < c"
    and "round (real_of_int (a * b) / real_of_int c) \<le> INT64_MAX"
  shows "av_rescale_near_inf a b c = round (real_of_int (a * b) / real_of_int c)"
proof -
  have m: "\<bar>max a (- INT64_MAX)\<bar> = a"
    using assms(1) by (simp add: INT64_MAX_def max_def)
  show ?thesis
    using assms near_round [of c "a * b"]
    by (simp add: av_rescale_near_inf_def m Let_def)
qed

lemma to_av_timebase_round:
  assumes "0 \<le> sint ts" "0 \<le> sint n" "0 < sint d"
    and "round (real_of_int (sint ts) * real_of_int (sint n) / real_of_int (sint d) * 1000000)
           \<le> INT64_MAX"
  shows "sint (to_av_timebase ts \<lparr>num = n, den = d\<rparr>)
           = round (real_of_int (sint ts) * real_of_int (sint n) / real_of_int (sint d) * 1000000)"
proof -
  let ?b = "sint n * 1000000"
  have e: "real_of_int (sint ts * ?b) / real_of_int (sint d)
            = real_of_int (sint ts) * real_of_int (sint n) / real_of_int (sint d) * 1000000"
    by simp
  have h4: "round (real_of_int (sint ts * ?b) / real_of_int (sint d)) \<le> INT64_MAX"
    using assms(4) by (simp only: e)
  have b0: "0 \<le> ?b"
    using assms(2) by simp
  have r: "av_rescale_near_inf (sint ts) ?b (sint d)
             = round (real_of_int (sint ts * ?b) / real_of_int (sint d))"
    by (rule av_rescale_near_inf_round [OF assms(1) b0 assms(3) h4])
  have "0 \<le> sint ts * ?b"
    using assms(1) b0 by simp
  then have "0 \<le> real_of_int (sint ts * ?b) / real_of_int (sint d)"
    using assms(3) by (intro divide_nonneg_pos) (simp_all only: of_int_0_le_iff of_int_0_less_iff)
  then have nonneg: "0 \<le> round (real_of_int (sint ts * ?b) / real_of_int (sint d))"
    using round_mono [of 0] by fastforce
  have w: "sint (word_of_int (av_rescale_near_inf (sint ts) ?b (sint d)) :: 64 word)
          = av_rescale_near_inf (sint ts) ?b (sint d)"
    unfolding r
    by (rule sint_word_of_int_64) (use h4 nonneg in \<open>simp_all add: INT64_MIN_def\<close>)
  have t: "to_av_timebase ts \<lparr>num = n, den = d\<rparr>
          = word_of_int (av_rescale_near_inf (sint ts) ?b (sint d))"
    by (simp add: to_av_timebase_def av_rescale_q_def sint_AV_TIME_BASE)
  have "sint (to_av_timebase ts \<lparr>num = n, den = d\<rparr>)
          = av_rescale_near_inf (sint ts) ?b (sint d)"
    by (simp only: t w)
  also have "\<dots> = round (real_of_int (sint ts * ?b) / real_of_int (sint d))"
    by (rule r)
  finally show ?thesis
    by (simp only: e)
qed

lemma start_timestamp_12_5_1: "start_timestamp 12 5 1 = 60000000"
  by (simp add: start_timestamp_def to_av_timebase_def av_rescale_q_def
      av_rescale_near_inf_def AV_TIME_BASE_def INT64_MAX_def INT64_MIN_def)

text \<open>
  C2 (as amended). For a segment index \<open>0 \<le> s < INT_MAX\<close>, a positive duration \<open>d\<close> and a
  positive timescale \<open>t\<close> such that \<open>round ((s+1) * d / t * AV_TIME_BASE)\<close> fits in 64 bits, the
  start timestamp is \<open>round (s * d / t * AV_TIME_BASE)\<close> and the end timestamp is
  \<open>round ((s+1) * d / t * AV_TIME_BASE)\<close>.
\<close>

theorem C2_timestamps_round:
  assumes "0 \<le> sint s" "0 < sint d" "0 < sint t" "sint s < 2 ^ 31 - 1"
    and "round (real_of_int (sint s + 1) * real_of_int (sint d) / real_of_int (sint t) * 1000000)
           \<le> INT64_MAX"
  shows "sint (start_timestamp s d t)
           = round (real_of_int (sint s) * real_of_int (sint d) / real_of_int (sint t) * 1000000)
       \<and> sint (end_timestamp s d t)
           = round (real_of_int (sint s + 1) * real_of_int (sint d) / real_of_int (sint t) * 1000000)"
proof -
  have s1: "sint (s + 1) = sint s + 1"
    using assms(1,4) by (simp add: sint_word_ariths signed_take_bit_int_eq_self)
  let ?r = "\<lambda>k. round (real_of_int k * real_of_int (sint d) / real_of_int (sint t) * 1000000)"
  have d0: "0 \<le> sint d"
    using assms(2) by simp
  have "real_of_int (sint s) * real_of_int (sint d) / real_of_int (sint t) * 1000000
          \<le> real_of_int (sint s + 1) * real_of_int (sint d) / real_of_int (sint t) * 1000000"
    using assms(2,3)
    by (intro mult_right_mono divide_right_mono) linarith+
  then have "?r (sint s) \<le> ?r (sint s + 1)"
    by (rule round_mono)
  then have b1: "?r (sint s) \<le> INT64_MAX"
    using assms(5) by linarith
  have st: "sint (start_timestamp s d t) = ?r (sint s)"
    unfolding start_timestamp_def
    using to_av_timebase_round [of "scast s" d t] assms(1) d0 assms(3) b1
    by (simp only: sint_scast_32_64)
  have en: "sint (end_timestamp s d t) = ?r (sint s + 1)"
    unfolding end_timestamp_def
    using to_av_timebase_round [of "scast (s + 1)" d t] assms(1) d0 assms(3) assms(5)
    by (simp only: sint_scast_32_64 s1)
  show ?thesis
    using st en by (rule conjI)
qed

text \<open>The instance of the spec: duration 5, timescale 1, segment 12 give a start of 60
  seconds, that is \<open>60 * AV_TIME_BASE\<close> ticks, and an end of 65 seconds.\<close>

theorem C2_timestamps_round_witness:
  "0 \<le> sint (12 :: 32 word) \<and> 0 < sint (5 :: 32 word) \<and> 0 < sint (1 :: 32 word)
   \<and> sint (12 :: 32 word) < 2 ^ 31 - 1
   \<and> sint (start_timestamp 12 5 1) = 60 * sint AV_TIME_BASE
   \<and> sint (end_timestamp 12 5 1) = 65 * sint AV_TIME_BASE"
  using C2_timestamps_round [of 12 5 1] by (simp add: INT64_MAX_def sint_AV_TIME_BASE)

text \<open>
  C2 as stated fails where the value does not fit the 64-bit result: for
  \<open>s = d = 2147483647\<close> and \<open>t = 1\<close> the start timestamp is not
  \<open>round (s * d / t * AV_TIME_BASE)\<close>.
\<close>

theorem C2_overflow_counterexample:
  "0 \<le> sint (2147483647 :: 32 word) \<and> 0 < sint (2147483647 :: 32 word) \<and> 0 < sint (1 :: 32 word)
   \<and> sint (start_timestamp 2147483647 2147483647 1)
        \<noteq> round (real_of_int (sint (2147483647 :: 32 word))
                   * real_of_int (sint (2147483647 :: 32 word))
                   / real_of_int (sint (1 :: 32 word)) * 1000000)"
  by (simp add: start_timestamp_def to_av_timebase_def av_rescale_q_def
      av_rescale_near_inf_def AV_TIME_BASE_def INT64_MAX_def INT64_MIN_def)

text \<open>
  C3. The start and end timestamps of vodtool.c and of the third variant are the same
  for every segment, duration and timescale: \<open>av_rescale_q (s, {d, t}, {1, AV_TIME_BASE})\<close>
  equals \<open>av_rescale_q (s, {AV_TIME_BASE, 1}, {t, d})\<close>.
\<close>

theorem C3_variants_same_timestamps:
  "av_rescale_q a \<lparr>num = d, den = t\<rparr> \<lparr>num = 1, den = AV_TIME_BASE\<rparr>
     = av_rescale_q a \<lparr>num = AV_TIME_BASE, den = 1\<rparr> \<lparr>num = t, den = d\<rparr>
   \<and> start_timestamp s d t = start_timestamp3 s d t
   \<and> end_timestamp s d t = end_timestamp3 s d t"
  by (simp add: start_timestamp_def start_timestamp3_def end_timestamp_def end_timestamp3_def
      to_av_timebase_def to_av_timebase3_def av_rescale_q_def mult.commute)

section \<open>The scan loop\<close>

lemma world_simps [simp]:
  "err (fprintf_stderr s w) = err w @ [s]"
  "trace (fprintf_stderr s w) = trace w"
  "files (fprintf_stderr s w) = files w"
  "err (calling c w) = err w"
  "trace (calling c w) = trace w @ [c]"
  "files (calling c w) = files w"
  by (simp_all add: fprintf_stderr_def calling_def)

lemma scan_loop_continues:
  assumes "continues e bvs start it"
  shows "scan_loop e bvs start (it # its) w
           = scan_loop e bvs start its (w\<lparr>trace := trace w @ pass_trace e bvs it\<rparr>)"
  using assms
  by (auto simp add: continues_def pass_trace_def calling_def Let_def split: if_splits)

lemma scan_loop_stops:
  assumes "\<not> continues e bvs start it"
  shows "scan_loop e bvs start (it # its) w = scan_loop e bvs start [it] w"
  using assms
  by (auto simp add: continues_def Let_def split: if_splits option.splits)

lemma scan_loop_one_saved:
  assumes "scan_loop e bvs start [it] w0 = (fin, w)" "files w \<noteq> files w0"
  shows "fin = Exit 0 \<and> decodes e bvs it \<and> av_frame_alloc e
         \<and> 0 \<le> av_compare_ts (pts (decoded it)) (video_time_base e) start \<lparr>num = 1, den = AV_TIME_BASE\<rparr>
         \<and> (\<exists>file. pgm_save (fopen_ok e) (data0 (decoded it)) (linesize0 (decoded it))
                       (width (decoded it)) (height (decoded it)) ''test.pgm'' = Some file
                     \<and> files w = files w0 @ [file])"
  using assms
  by (auto simp add: decodes_def Let_def split: if_splits option.splits)

lemma continues_decodes:
  "continues e bvs start it \<Longrightarrow> decodes e bvs it \<Longrightarrow>
     av_compare_ts (pts (decoded it)) (video_time_base e) start \<lparr>num = 1, den = AV_TIME_BASE\<rparr> < 0"
  by (auto simp add: continues_def decodes_def split: if_splits)

lemma scan_loop_saved:
  assumes "scan_loop e bvs start its w0 = (fin, w)" "files w \<noteq> files w0"
  shows "\<exists>n file. n < length its \<and> fin = Exit 0 \<and> av_frame_alloc e
         \<and> decodes e bvs (its ! n)
         \<and> 0 \<le> av_compare_ts (pts (decoded (its ! n))) (video_time_base e) start
                  \<lparr>num = 1, den = AV_TIME_BASE\<rparr>
         \<and> (\<forall>m<n. continues e bvs start (its ! m))
         \<and> pgm_save (fopen_ok e) (data0 (decoded (its ! n))) (linesize0 (decoded (its ! n)))
                       (width (decoded (its ! n))) (height (decoded (its ! n))) ''test.pgm'' = Some file
         \<and> files w = files w0 @ [file]"
  using assms
proof (induction its arbitrary: w0)
  case Nil
  then show ?case by simp
next
  case (Cons it its)
  show ?case
  proof (cases "continues e bvs start it")
    case True
    let ?w1 = "w0\<lparr>trace := trace w0 @ pass_trace e bvs it\<rparr>"
    have "scan_loop e bvs start its ?w1 = (fin, w)"
      using Cons.prems(1) by (simp only: scan_loop_continues [OF True])
    moreover have "files w \<noteq> files ?w1"
      using Cons.prems(2) by simp
    ultimately obtain n out where n: "n < length its" "fin = Exit 0" "av_frame_alloc e"
      "decodes e bvs (its ! n)"
      "0 \<le> av_compare_ts (pts (decoded (its ! n))) (video_time_base e) start
                  \<lparr>num = 1, den = AV_TIME_BASE\<rparr>"
      "\<forall>m<n. continues e bvs start (its ! m)"
      "pgm_save (fopen_ok e) (data0 (decoded (its ! n))) (linesize0 (decoded (its ! n)))
                       (width (decoded (its ! n))) (height (decoded (its ! n))) ''test.pgm'' = Some out"
      "files w = files ?w1 @ [out]"
      using Cons.IH [of ?w1] by blast
    have all: "\<forall>m<Suc n. continues e bvs start ((it # its) ! m)"
      using True n(6) by (auto simp add: less_Suc_eq_0_disj)
    show ?thesis
      using n all by (intro exI [of _ "Suc n"] exI [of _ out]) simp
  next
    case False
    have "scan_loop e bvs start [it] w0 = (fin, w)"
      using scan_loop_stops [OF False, of its w0] Cons.prems(1) by (rule subst)
    from scan_loop_one_saved [OF this Cons.prems(2)]
    show ?thesis
      by (intro exI [of _ 0]) auto
  qed
qed

lemma compare_rescaled:
  assumes "0 < sint (den tb)"
  shows "(0 \<le> av_compare_ts ts tb start \<lparr>num = 1, den = AV_TIME_BASE\<rparr>)
           = (real_of_int (sint start) \<le> rescaled ts tb)"
proof -
  let ?n = "sint ts * (sint (num tb) * 1000000)"
  let ?d = "sint (den tb)"
  have "(0 \<le> av_compare_ts ts tb start \<lparr>num = 1, den = AV_TIME_BASE\<rparr>)
          = (sint start * ?d \<le> ?n)"
    by (auto simp add: av_compare_ts_def sint_AV_TIME_BASE Let_def)
  also have "\<dots> = (real_of_int (sint start) * real_of_int ?d \<le> real_of_int ?n)"
    by (simp only: of_int_mult [symmetric] of_int_le_iff)
  also have "\<dots> = (real_of_int (sint start) \<le> real_of_int ?n / real_of_int ?d)"
    using assms by (simp only: pos_le_divide_eq of_int_0_less_iff)
  also have "real_of_int ?n / real_of_int ?d = rescaled ts tb"
    by (simp add: rescaled_def sint_AV_TIME_BASE)
  finally show ?thesis .
qed

lemma main_reaches:
  assumes "reaches_scan_loop e"
    and "parse_options (getopt_results e) default_options = Some opts"
  shows "main e = scan_loop e (av_find_best_stream e AVMEDIA_TYPE_VIDEO)
                    (start_timestamp (segment opts) (duration opts) (timescale opts))
                    (packets e) (world_at_loop e opts)"
  using assms
  by (simp add: main_def reaches_scan_loop_def world_at_loop_def open_input_file_def
      find_best_stream_def seek_to_timestamp_def Let_def)

lemma main_fatal:
  assumes "\<not> reaches_scan_loop e"
  shows "fst (main e) = Exit 1 \<and> files (snd (main e)) = [] \<and> trace (snd (main e)) = []"
  using assms
  by (auto simp add: main_def reaches_scan_loop_def usage_def world0_def open_input_file_def
      find_best_stream_def seek_to_timestamp_def Let_def split: option.splits)

section \<open>The concrete run, evaluated\<close>

lemma example_env_sel:
  "argv0 example_env = ''vodtool''" "getopt_results example_env = [(CHR ''s'', ''12'')]"
  "operands example_env = [''in.mkv'']"
  "avformat_open_input example_env = 0" "avformat_find_stream_info example_env = 0"
  "av_find_best_stream example_env AVMEDIA_TYPE_VIDEO = 0"
  "av_find_best_stream example_env AVMEDIA_TYPE_AUDIO = 1"
  "avcodec_find_decoder example_env" "avcodec_parameters_to_context example_env = 0"
  "avcodec_open2 example_env = 0" "avformat_seek_file example_env = 0"
  "av_frame_alloc example_env" "video_time_base example_env = \<lparr>num = 1, den = 1\<rparr>"
  "averror_eagain example_env = - 11" "fopen_ok example_env"
  "packets example_env = example_packets"
  by (simp_all add: example_env_def)

lemma no_frame_env_sel:
  "getopt_results no_frame_env = [(CHR ''s'', ''12'')]"
  "operands no_frame_env = [''in.mkv'']"
  "avformat_open_input no_frame_env = 0" "avformat_find_stream_info no_frame_env = 0"
  "av_find_best_stream no_frame_env AVMEDIA_TYPE_VIDEO = 0"
  "av_find_best_stream no_frame_env AVMEDIA_TYPE_AUDIO = 1"
  "avcodec_find_decoder no_frame_env" "avcodec_parameters_to_context no_frame_env = 0"
  "avcodec_open2 no_frame_env = 0" "avformat_seek_file no_frame_env = 0"
  "\<not> av_frame_alloc no_frame_env" "video_time_base no_frame_env = \<lparr>num = 1, den = 1\<rparr>"
  "averror_eagain no_frame_env = - 11" "fopen_ok no_frame_env"
  "packets no_frame_env = example_packets"
  by (simp_all add: no_frame_env_def example_env_def)

lemma atoi_12: "atoi ''12'' = 12"
  by (simp add: atoi_def isspace_def isdigit_def)


lemma parse_example:
  "parse_options (getopt_results example_env) default_options = Some example_options"
  by (simp add: example_env_sel default_options_def atoi_12 example_options_def)

lemma end_timestamp_12_5_1: "end_timestamp 12 5 1 = 65000000"
  by (simp add: end_timestamp_def to_av_timebase_def av_rescale_q_def
      av_rescale_near_inf_def AV_TIME_BASE_def INT64_MAX_def INT64_MIN_def)

lemma reaches_example: "reaches_scan_loop example_env"
  by (simp add: reaches_scan_loop_def example_env_sel parse_example)

lemma timestamps_line_example:
  "timestamps_line example_options = ''start_timestamp=60000000;end_timestamp=65000000\<newline>''"
  by (simp add: timestamps_line_def example_options_def start_timestamp_12_5_1 end_timestamp_12_5_1 show_int_def digit_char_def)

lemma compare_59: "av_compare_ts 59 \<lparr>num = 1, den = 1\<rparr> 60000000 \<lparr>num = 1, den = AV_TIME_BASE\<rparr> = - 1"
  by (simp add: av_compare_ts_def AV_TIME_BASE_def)

lemma compare_60: "av_compare_ts 60 \<lparr>num = 1, den = 1\<rparr> 60000000 \<lparr>num = 1, den = AV_TIME_BASE\<rparr> = 0"
  by (simp add: av_compare_ts_def AV_TIME_BASE_def)

lemma to_av_timebase_60: "to_av_timebase 60 \<lparr>num = 1, den = 1\<rparr> = 60000000"
  by (simp add: to_av_timebase_def av_rescale_q_def
      av_rescale_near_inf_def AV_TIME_BASE_def INT64_MAX_def INT64_MIN_def)

lemma pgm_save_60:
  "pgm_save True \<lparr>mem = ''abc-def-'', addr = 0\<rparr> 4 3 2 ''test.pgm''
     = Some (''test.pgm'', ''P5\<newline>3 2\<newline>255\<newline>abcdef'')"
  by (simp add: pgm_save_def fwrite_rows.simps fwrite_row_def pgm_header_def show_int_def
      digit_char_def)

lemma main_example: "main example_env = (Exit 0, example_world)"
proof -
  have "main example_env
          = scan_loop example_env 0 60000000 example_packets (world_at_loop example_env example_options)"
    using main_reaches [OF reaches_example parse_example]
    by (simp add: example_env_sel example_options_def start_timestamp_12_5_1)
  also have "\<dots> = (Exit 0, example_world)"
    by (simp add: example_packets_def audio_packet_def try_again_packet_def early_packet_def
        target_packet_def frame_59_def frame_60_def example_env_sel world_at_loop_def
        timestamps_line_example compare_59 compare_60 to_av_timebase_60 pgm_save_60
        fprintf_stderr_def calling_def world0_def example_world_def show_int_def digit_char_def Let_def)
  finally show ?thesis .
qed

lemma bottom_up_env_sel:
  "getopt_results bottom_up_env = [(CHR ''s'', ''12'')]"
  "operands bottom_up_env = [''in.mkv'']"
  "avformat_open_input bottom_up_env = 0" "avformat_find_stream_info bottom_up_env = 0"
  "av_find_best_stream bottom_up_env AVMEDIA_TYPE_VIDEO = 0"
  "av_find_best_stream bottom_up_env AVMEDIA_TYPE_AUDIO = 1"
  "avcodec_find_decoder bottom_up_env" "avcodec_parameters_to_context bottom_up_env = 0"
  "avcodec_open2 bottom_up_env = 0" "avformat_seek_file bottom_up_env = 0"
  "av_frame_alloc bottom_up_env" "video_time_base bottom_up_env = \<lparr>num = 1, den = 1\<rparr>"
  "averror_eagain bottom_up_env = - 11" "fopen_ok bottom_up_env"
  "packets bottom_up_env = [bottom_up_packet]"
  by (simp_all add: bottom_up_env_def example_env_def)

lemma pgm_save_bottom_up:
  "pgm_save True \<lparr>mem = ''def-abc-'', addr = 4\<rparr> (- 4) 3 2 ''test.pgm''
     = Some (''test.pgm'', ''P5\<newline>3 2\<newline>255\<newline>abcdef'')"
  by (simp add: pgm_save_def fwrite_rows.simps fwrite_row_def pgm_header_def show_int_def
      digit_char_def)

lemma main_bottom_up: "main bottom_up_env = (Exit 0, bottom_up_world)"
proof -
  have r: "reaches_scan_loop bottom_up_env"
    by (simp add: reaches_scan_loop_def bottom_up_env_sel default_options_def atoi_12)
  have p: "parse_options (getopt_results bottom_up_env) default_options = Some example_options"
    by (simp add: bottom_up_env_sel default_options_def atoi_12 example_options_def)
  show ?thesis
    using main_reaches [OF r p]
    by (simp add: bottom_up_env_sel example_options_def start_timestamp_12_5_1 world_at_loop_def
        timestamps_line_example [unfolded example_options_def] bottom_up_packet_def
        bottom_up_frame_60_def compare_60 to_av_timebase_60 pgm_save_bottom_up
        calling_def fprintf_stderr_def world0_def bottom_up_world_def show_int_def
        digit_char_def Let_def)
qed

section \<open>The frame that is saved\<close>

lemma files_world_at_loop [simp]: "files (world_at_loop e opts) = []"
  by (simp add: world_at_loop_def world0_def Let_def)

lemma main_saved:
  assumes "main e = (fin, w)" "files w \<noteq> []"
  shows "\<exists>opts n out. parse_options (getopt_results e) default_options = Some opts
         \<and> n < length (packets e) \<and> fin = Exit 0 \<and> av_frame_alloc e
         \<and> decodes e (av_find_best_stream e AVMEDIA_TYPE_VIDEO) (packets e ! n)
         \<and> 0 \<le> av_compare_ts (pts (decoded (packets e ! n))) (video_time_base e)
                  (start_timestamp (segment opts) (duration opts) (timescale opts))
                  \<lparr>num = 1, den = AV_TIME_BASE\<rparr>
         \<and> (\<forall>m<n. continues e (av_find_best_stream e AVMEDIA_TYPE_VIDEO)
                     (start_timestamp (segment opts) (duration opts) (timescale opts))
                     (packets e ! m))
         \<and> pgm_save (fopen_ok e) (data0 (decoded (packets e ! n)))
              (linesize0 (decoded (packets e ! n))) (width (decoded (packets e ! n)))
              (height (decoded (packets e ! n))) ''test.pgm'' = Some out
         \<and> files w = [out]"
proof -
  have r: "reaches_scan_loop e"
    using assms main_fatal [of e] by auto
  then obtain opts where opts: "parse_options (getopt_results e) default_options = Some opts"
    by (auto simp add: reaches_scan_loop_def)
  let ?bvs = "av_find_best_stream e AVMEDIA_TYPE_VIDEO"
  let ?start = "start_timestamp (segment opts) (duration opts) (timescale opts)"
  have "scan_loop e ?bvs ?start (packets e) (world_at_loop e opts) = (fin, w)"
    using main_reaches [OF r opts] assms(1) by simp
  moreover have "files w \<noteq> files (world_at_loop e opts)"
    using assms(2) by simp
  ultimately show ?thesis
    using scan_loop_saved [of e ?bvs ?start "packets e" "world_at_loop e opts" fin w] opts
    by auto
qed

section \<open>The try-again result\<close>

text \<open>
  C7. For a packet of the video stream that the decoder accepted: when
  \<open>avcodec_receive_frame\<close> returns \<open>AVERROR(EAGAIN)\<close> the loop writes no diagnostic,
  releases the packet and goes on with the next read; every other negative result prints
  \<open>Didn't get frame\<close> and ends the process with \<open>exit(1)\<close>.
\<close>

theorem C7_try_again_is_not_an_error:
  assumes "pkt_stream_index it = best_video_stream" and "0 \<le> send_ret it"
  shows "(receive_ret it = averror_eagain e \<longrightarrow>
            scan_loop e best_video_stream start (it # its) w
              = scan_loop e best_video_stream start its
                  (w\<lparr>trace := trace w @ [Av_read_frame, Avcodec_send_packet,
                                           Avcodec_receive_frame (av_frame_alloc e),
                                           Av_packet_unref]\<rparr>))
       \<and> (receive_ret it \<noteq> averror_eagain e \<and> receive_ret it < 0 \<longrightarrow>
            scan_loop e best_video_stream start (it # its) w
              = (Exit 1, w\<lparr>err := err w @ [''Didn't get frame\<newline>''],
                           trace := trace w @ [Av_read_frame, Avcodec_send_packet,
                                           Avcodec_receive_frame (av_frame_alloc e)]\<rparr>))"
  using assms
  by (simp add: calling_def fprintf_stderr_def Let_def)

theorem C7_try_again_is_not_an_error_witness:
  "pkt_stream_index try_again_packet = 0 \<and> 0 \<le> send_ret try_again_packet
   \<and> receive_ret try_again_packet = averror_eagain example_env
   \<and> scan_loop example_env 0 60000000 [try_again_packet] world0
        = (Awaiting_input,
           world0\<lparr>trace := [Av_read_frame, Avcodec_send_packet, Avcodec_receive_frame True,
                             Av_packet_unref]\<rparr>)
   \<and> pkt_stream_index drained_packet = 0 \<and> 0 \<le> send_ret drained_packet
   \<and> receive_ret drained_packet \<noteq> averror_eagain example_env
   \<and> receive_ret drained_packet < 0
   \<and> scan_loop example_env 0 60000000 [drained_packet, target_packet] world0
        = (Exit 1,
           world0\<lparr>err := [''Didn't get frame\<newline>''],
                   trace := [Av_read_frame, Avcodec_send_packet, Avcodec_receive_frame True]\<rparr>)"
  using C7_try_again_is_not_an_error [of try_again_packet 0 example_env 60000000 "[]" world0]
    C7_try_again_is_not_an_error [of drained_packet 0 example_env 60000000 "[target_packet]" world0]
  by (simp add: try_again_packet_def drained_packet_def AVERROR_EOF_def example_env_sel world0_def)

section \<open>Reaching an iteration\<close>

lemma scan_loop_prefix:
  assumes "n \<le> length its" "\<forall>m<n. continues e bvs start (its ! m)"
  shows "\<exists>w'. scan_loop e bvs start its w = scan_loop e bvs start (drop n its) w'
            \<and> files w' = files w \<and> err w' = err w
            \<and> set (trace w') \<subseteq> set (trace w) \<union> {Av_read_frame, Av_packet_unref,
                    Avcodec_send_packet, Avcodec_receive_frame (av_frame_alloc e)}
            \<and> set (trace w) \<subseteq> set (trace w')"
  using assms
proof (induction n arbitrary: its w)
  case 0
  show ?case
    by (intro exI [of _ w]) auto
next
  case (Suc n)
  then obtain it rest where its: "its = it # rest"
    by (cases its) auto
  have c: "continues e bvs start it"
    using Suc.prems(2) its by auto
  let ?w1 = "w\<lparr>trace := trace w @ pass_trace e bvs it\<rparr>"
  have step: "scan_loop e bvs start its w = scan_loop e bvs start rest ?w1"
    unfolding its by (rule scan_loop_continues [OF c])
  have "n \<le> length rest" "\<forall>m<n. continues e bvs start (rest ! m)"
    using Suc.prems its by auto
  from Suc.IH [OF this, of ?w1]
  obtain w' where w': "scan_loop e bvs start rest ?w1 = scan_loop e bvs start (drop n rest) w'"
    "files w' = files ?w1" "err w' = err ?w1"
    "set (trace w') \<subseteq> set (trace ?w1) \<union> {Av_read_frame, Av_packet_unref,
                    Avcodec_send_packet, Avcodec_receive_frame (av_frame_alloc e)}"
    "set (trace ?w1) \<subseteq> set (trace w')"
    by blast
  have t1: "set (trace ?w1) \<subseteq> set (trace w) \<union> {Av_read_frame, Av_packet_unref,
                    Avcodec_send_packet, Avcodec_receive_frame (av_frame_alloc e)}"
    by (auto simp add: pass_trace_def)
  have t2: "set (trace w) \<subseteq> set (trace ?w1)"
    by simp
  show ?case
    apply (intro exI [of _ w'])
    using step w' t1 t2 its apply auto
    done
qed

text \<open>What one pass does when it does not hand the loop on.\<close>

lemma scan_loop_hard_error_step:
  assumes "pkt_stream_index it = bvs"
    and "send_ret it < 0 \<or> (receive_ret it \<noteq> averror_eagain e \<and> receive_ret it < 0)"
  shows "\<exists>w'. scan_loop e bvs start (it # its) w = (Exit 1, w') \<and> files w' = files w
            \<and> err w' \<noteq> err w"
  using assms
  by (auto simp add: Let_def)

lemma scan_loop_receive_step:
  assumes "pkt_stream_index it = bvs" and "0 \<le> send_ret it"
  shows "Avcodec_receive_frame (av_frame_alloc e)
           \<in> set (trace (snd (scan_loop e bvs start (it # its) w)))"
proof -
  have mono: "c \<in> set (trace w0) \<Longrightarrow> c \<in> set (trace (snd (scan_loop e bvs start xs w0)))"
    for c xs w0
    by (induction xs arbitrary: w0) (auto simp add: Let_def split: option.splits)
  show ?thesis
    using assms by (auto simp add: Let_def mono split: option.splits)
qed


lemma scan_loop_decompose:
  "scan_loop e bvs start its w
      = (Awaiting_input, w\<lparr>trace := trace w @ concat (map (pass_trace e bvs) its)\<rparr>)
   \<or> (\<exists>n<length its. (\<forall>m<n. continues e bvs start (its ! m))
          \<and> \<not> continues e bvs start (its ! n)
          \<and> scan_loop e bvs start its w
              = scan_loop e bvs start [its ! n]
                  (w\<lparr>trace := trace w @ concat (map (pass_trace e bvs) (take n its))\<rparr>))"
proof (induction its arbitrary: w)
  case Nil
  show ?case by simp
next
  case (Cons it its)
  show ?case
  proof (cases "continues e bvs start it")
    case True
    let ?w1 = "w\<lparr>trace := trace w @ pass_trace e bvs it\<rparr>"
    have step: "scan_loop e bvs start (it # its) w = scan_loop e bvs start its ?w1"
      by (rule scan_loop_continues [OF True])
    from Cons.IH [of ?w1] show ?thesis
    proof
      assume "scan_loop e bvs start its ?w1
                = (Awaiting_input, ?w1\<lparr>trace := trace ?w1 @ concat (map (pass_trace e bvs) its)\<rparr>)"
      then show ?thesis
        by (intro disjI1) (simp only: step, simp)
    next
      assume "\<exists>n<length its. (\<forall>m<n. continues e bvs start (its ! m))
          \<and> \<not> continues e bvs start (its ! n)
          \<and> scan_loop e bvs start its ?w1
              = scan_loop e bvs start [its ! n]
                  (?w1\<lparr>trace := trace ?w1 @ concat (map (pass_trace e bvs) (take n its))\<rparr>)"
      then obtain n where n: "n < length its" "\<forall>m<n. continues e bvs start (its ! m)"
        "\<not> continues e bvs start (its ! n)"
        "scan_loop e bvs start its ?w1
              = scan_loop e bvs start [its ! n]
                  (?w1\<lparr>trace := trace ?w1 @ concat (map (pass_trace e bvs) (take n its))\<rparr>)"
        by blast
      have all: "\<forall>m<Suc n. continues e bvs start ((it # its) ! m)"
        using True n(2) by (auto simp add: less_Suc_eq_0_disj)
      have "scan_loop e bvs start (it # its) w
              = scan_loop e bvs start [(it # its) ! Suc n]
                  (w\<lparr>trace := trace w @ concat (map (pass_trace e bvs) (take (Suc n) (it # its)))\<rparr>)"
        by (simp only: step n(4)) simp
      then show ?thesis
        using n(1,3) all by (intro disjI2 exI [of _ "Suc n"]) simp
    qed
  next
    case False
    have "scan_loop e bvs start (it # its) w = scan_loop e bvs start [it] w"
      by (rule scan_loop_stops [OF False])
    then show ?thesis
      using False by (intro disjI2 exI [of _ 0]) simp
  qed
qed

text \<open>One pass that does not hand the loop on.\<close>

lemma scan_loop_last:
  assumes "scan_loop e bvs start [it] w = (fin, w')" "\<not> continues e bvs start it"
  shows "fin \<noteq> Awaiting_input"
    and "(fin = Exit 0 \<and> (\<exists>out. files w' = files w @ [out])) \<or> (fin \<noteq> Exit 0 \<and> files w' = files w)"
    and "fin = Return_from_main \<longrightarrow> pkt_stream_index it \<noteq> bvs \<and> read_ret it < 0 \<and> err w' = err w"
    and "set (trace w') \<subseteq> set (trace w) \<union> {Av_read_frame, Av_packet_unref, Avcodec_send_packet,
                                        Avcodec_receive_frame (av_frame_alloc e)}"
  using assms
  by (auto simp add: continues_def Let_def split: if_splits option.splits)

lemma scan_loop_files:
  assumes "scan_loop e bvs start its w0 = (fin, w)"
  shows "(fin = Exit 0 \<and> (\<exists>out. files w = files w0 @ [out]))
       \<or> (fin \<noteq> Exit 0 \<and> files w = files w0)"
  using scan_loop_decompose [of e bvs start its w0]
proof
  assume "scan_loop e bvs start its w0
      = (Awaiting_input, w0\<lparr>trace := trace w0 @ concat (map (pass_trace e bvs) its)\<rparr>)"
  then show ?thesis
    using assms by auto
next
  assume "\<exists>n<length its. (\<forall>m<n. continues e bvs start (its ! m))
          \<and> \<not> continues e bvs start (its ! n)
          \<and> scan_loop e bvs start its w0
              = scan_loop e bvs start [its ! n]
                  (w0\<lparr>trace := trace w0 @ concat (map (pass_trace e bvs) (take n its))\<rparr>)"
  then obtain n where n: "\<not> continues e bvs start (its ! n)"
    "scan_loop e bvs start [its ! n]
        (w0\<lparr>trace := trace w0 @ concat (map (pass_trace e bvs) (take n its))\<rparr>) = (fin, w)"
    using assms by auto
  show ?thesis
    using scan_loop_last(2) [OF n(2,1)] by simp
qed

lemma pass_trace_calls:
  "set (pass_trace e bvs it) \<subseteq> {Av_read_frame, Av_packet_unref, Avcodec_send_packet,
                                 Avcodec_receive_frame (av_frame_alloc e)}"
  by (simp add: pass_trace_def)

lemma scan_loop_trace_calls:
  "set (trace (snd (scan_loop e bvs start its w)))
     \<subseteq> set (trace w) \<union> {Av_read_frame, Av_packet_unref, Avcodec_send_packet,
                          Avcodec_receive_frame (av_frame_alloc e)}"
  using scan_loop_decompose [of e bvs start its w]
proof
  assume "scan_loop e bvs start its w
      = (Awaiting_input, w\<lparr>trace := trace w @ concat (map (pass_trace e bvs) its)\<rparr>)"
  then show ?thesis
    using pass_trace_calls [of e bvs] by auto
next
  assume "\<exists>n<length its. (\<forall>m<n. continues e bvs start (its ! m))
          \<and> \<not> continues e bvs start (its ! n)
          \<and> scan_loop e bvs start its w
              = scan_loop e bvs start [its ! n]
                  (w\<lparr>trace := trace w @ concat (map (pass_trace e bvs) (take n its))\<rparr>)"
  then obtain n where n: "\<not> continues e bvs start (its ! n)"
    "scan_loop e bvs start its w
              = scan_loop e bvs start [its ! n]
                  (w\<lparr>trace := trace w @ concat (map (pass_trace e bvs) (take n its))\<rparr>)"
    by blast
  let ?w1 = "w\<lparr>trace := trace w @ concat (map (pass_trace e bvs) (take n its))\<rparr>"
  obtain fin w' where r: "scan_loop e bvs start [its ! n] ?w1 = (fin, w')"
    by (cases "scan_loop e bvs start [its ! n] ?w1") auto
  have "set (trace ?w1) \<subseteq> set (trace w) \<union> {Av_read_frame, Av_packet_unref, Avcodec_send_packet,
                          Avcodec_receive_frame (av_frame_alloc e)}"
    using pass_trace_calls [of e bvs] by auto
  then show ?thesis
    using scan_loop_last(4) [OF r n(1)] n(2) r by auto
qed

lemma scan_loop_trace_flag:
  assumes "Avcodec_receive_frame b \<in> set (trace (snd (scan_loop e bvs start its w)))"
  shows "b = av_frame_alloc e \<or> Avcodec_receive_frame b \<in> set (trace w)"
  using scan_loop_trace_calls [of e bvs start its w] assms by auto

lemma scan_loop_reached:
  assumes "n < length its" "\<forall>m<n. continues e bvs start (its ! m)"
  shows "\<exists>w'. scan_loop e bvs start its w = scan_loop e bvs start (its ! n # drop (Suc n) its) w'
            \<and> files w' = files w \<and> err w' = err w"
  using scan_loop_prefix [of n its e bvs start w] assms
  by (auto simp add: Cons_nth_drop_Suc)

section \<open>The first frame at or after the start\<close>

text \<open>\<open>exit(0)\<close> is reached only through the branch that saves the frame.\<close>

lemma main_exit_0:
  assumes "main e = (fin, w)" and "fin = Exit 0"
  shows "files w \<noteq> []"
proof (cases "reaches_scan_loop e")
  case False
  then show ?thesis
    using main_fatal [OF False] assms by simp
next
  case True
  then obtain opts where opts: "parse_options (getopt_results e) default_options = Some opts"
    by (auto simp add: reaches_scan_loop_def)
  have "scan_loop e (av_find_best_stream e AVMEDIA_TYPE_VIDEO)
          (start_timestamp (segment opts) (duration opts) (timescale opts))
          (packets e) (world_at_loop e opts) = (fin, w)"
    using main_reaches [OF True opts] assms(1) by simp
  from scan_loop_files [OF this] show ?thesis
    using assms(2) by auto
qed

text \<open>
  C1 (as amended). When an invocation ends with \<open>exit(0)\<close>, or writes an image (the two
  are the same), it writes exactly one image, \<open>test.pgm\<close>, and ends with \<open>exit(0)\<close>. The
  image is that of the earliest decoded frame of the selected video stream whose
  presentation timestamp, rescaled to the global time base, is at or after the start
  timestamp of the segment: every iteration before it handed the loop on, and every frame
  decoded before it lies before the start. A decoded frame before the start is always
  discarded and the scan goes on. (The comparison is that of \<open>av_compare_ts\<close>, on the
  exact rational value, for a time base with a positive denominator.)
\<close>

theorem C1_earliest_frame_saved:
  assumes "main e = (fin, w)" and "fin = Exit 0 \<or> files w \<noteq> []"
    and "0 < sint (den (video_time_base e))"
  shows "\<exists>opts n out.
           parse_options (getopt_results e) default_options = Some opts
         \<and> n < length (packets e)
         \<and> fin = Exit 0
         \<and> files w = [out]
         \<and> pgm_save True (data0 (decoded (packets e ! n)))
              (linesize0 (decoded (packets e ! n))) (width (decoded (packets e ! n)))
              (height (decoded (packets e ! n))) ''test.pgm'' = Some out
         \<and> decodes e (av_find_best_stream e AVMEDIA_TYPE_VIDEO) (packets e ! n)
         \<and> real_of_int (sint (start_timestamp (segment opts) (duration opts) (timescale opts)))
              \<le> rescaled (pts (decoded (packets e ! n))) (video_time_base e)
         \<and> (\<forall>m<n. continues e (av_find_best_stream e AVMEDIA_TYPE_VIDEO)
                     (start_timestamp (segment opts) (duration opts) (timescale opts))
                     (packets e ! m)
                 \<and> (decodes e (av_find_best_stream e AVMEDIA_TYPE_VIDEO) (packets e ! m) \<longrightarrow>
                      rescaled (pts (decoded (packets e ! m))) (video_time_base e)
                        < real_of_int (sint (start_timestamp (segment opts) (duration opts)
                                               (timescale opts)))))
         \<and> (\<forall>it. decodes e (av_find_best_stream e AVMEDIA_TYPE_VIDEO) it
                 \<and> rescaled (pts (decoded it)) (video_time_base e)
                        < real_of_int (sint (start_timestamp (segment opts) (duration opts)
                                               (timescale opts)))
                 \<longrightarrow> continues e (av_find_best_stream e AVMEDIA_TYPE_VIDEO)
                     (start_timestamp (segment opts) (duration opts) (timescale opts)) it)"
proof -
  let ?bvs = "av_find_best_stream e AVMEDIA_TYPE_VIDEO"
  let ?tb = "video_time_base e"
  have written: "files w \<noteq> []"
    using assms(2) main_exit_0 [OF assms(1)] by blast
  obtain opts n out where o: "parse_options (getopt_results e) default_options = Some opts"
    "n < length (packets e)" "fin = Exit 0" "av_frame_alloc e"
    "decodes e ?bvs (packets e ! n)"
    "0 \<le> av_compare_ts (pts (decoded (packets e ! n))) ?tb
                  (start_timestamp (segment opts) (duration opts) (timescale opts))
                  \<lparr>num = 1, den = AV_TIME_BASE\<rparr>"
    "\<forall>m<n. continues e ?bvs
                     (start_timestamp (segment opts) (duration opts) (timescale opts))
                     (packets e ! m)"
    "pgm_save (fopen_ok e) (data0 (decoded (packets e ! n)))
              (linesize0 (decoded (packets e ! n))) (width (decoded (packets e ! n)))
              (height (decoded (packets e ! n))) ''test.pgm'' = Some out"
    "files w = [out]"
    using main_saved [OF assms(1) written] by blast
  let ?start = "start_timestamp (segment opts) (duration opts) (timescale opts)"
  have fo: "fopen_ok e"
    using o(8) by (auto simp add: pgm_save_def split: if_splits)
  have ge: "real_of_int (sint ?start) \<le> rescaled (pts (decoded (packets e ! n))) ?tb"
    using o(6) compare_rescaled [OF assms(3)] by simp
  have lt: "rescaled (pts (decoded it)) ?tb < real_of_int (sint ?start)"
    if "continues e ?bvs ?start it" "decodes e ?bvs it" for it
  proof -
    have "\<not> 0 \<le> av_compare_ts (pts (decoded it)) ?tb ?start \<lparr>num = 1, den = AV_TIME_BASE\<rparr>"
      using continues_decodes [OF that] by simp
    then show ?thesis
      using compare_rescaled [OF assms(3)] by simp
  qed
  have disc: "continues e ?bvs ?start it"
    if "decodes e ?bvs it" "rescaled (pts (decoded it)) ?tb < real_of_int (sint ?start)" for it
  proof -
    have "\<not> 0 \<le> av_compare_ts (pts (decoded it)) ?tb ?start \<lparr>num = 1, den = AV_TIME_BASE\<rparr>"
      using that(2) compare_rescaled [OF assms(3), of "pts (decoded it)" ?start] by simp
    then show ?thesis
      using that(1) o(4) by (simp add: continues_def decodes_def)
  qed
  show ?thesis
    apply (intro exI [of _ opts] exI [of _ n] exI [of _ out])
    using o fo ge lt disc apply simp
    done
qed

theorem C1_earliest_frame_saved_witness:
  "main example_env = (Exit 0, example_world)
   \<and> files example_world \<noteq> []
   \<and> 0 < sint (den (video_time_base example_env))
   \<and> main bottom_up_env = (Exit 0, bottom_up_world)
   \<and> (\<exists>out. files bottom_up_world = [out])
   \<and> (\<exists>opts n out.
           parse_options (getopt_results example_env) default_options = Some opts
         \<and> n < length (packets example_env)
         \<and> files example_world = [out]
         \<and> decodes example_env (av_find_best_stream example_env AVMEDIA_TYPE_VIDEO)
              (packets example_env ! n)
         \<and> real_of_int (sint (start_timestamp (segment opts) (duration opts) (timescale opts)))
              \<le> rescaled (pts (decoded (packets example_env ! n))) (video_time_base example_env)
         \<and> (\<forall>m<n. decodes example_env (av_find_best_stream example_env AVMEDIA_TYPE_VIDEO)
                       (packets example_env ! m) \<longrightarrow>
                      rescaled (pts (decoded (packets example_env ! m))) (video_time_base example_env)
                        < real_of_int (sint (start_timestamp (segment opts) (duration opts)
                                               (timescale opts)))))"
proof -
  have h1: "main example_env = (Exit 0, example_world)"
    by (rule main_example)
  have h2: "files example_world \<noteq> []"
    by (simp add: example_world_def)
  have h3: "0 < sint (den (video_time_base example_env))"
    by (simp add: example_env_sel)
  have b3: "0 < sint (den (video_time_base bottom_up_env))"
    by (simp add: bottom_up_env_sel)
  have "\<exists>out. files bottom_up_world = [out]"
    using C1_earliest_frame_saved [OF main_bottom_up disjI1 [OF refl] b3] by blast
  then show ?thesis
    using h1 h2 h3 main_bottom_up C1_earliest_frame_saved [OF h1 disjI2 [OF h2] h3] by blast
qed

section \<open>A failed frame allocation\<close>

text \<open>
  C10. When \<open>av_frame_alloc\<close> returns null, \<open>main\<close> prints \<open>Could not allocate frame\<close>
  and does not exit: it runs the scan loop, and every call of \<open>avcodec_receive_frame\<close>
  there (one is made for each video packet the loop reaches and the decoder accepts) gets
  the null frame pointer.
\<close>

theorem C10_null_frame_goes_on:
  assumes "reaches_scan_loop e" and "\<not> av_frame_alloc e"
    and "parse_options (getopt_results e) default_options = Some opts"
  shows "main e = scan_loop e (av_find_best_stream e AVMEDIA_TYPE_VIDEO)
                    (start_timestamp (segment opts) (duration opts) (timescale opts)) (packets e)
                    \<lparr>err = [timestamps_line opts, ''Could not allocate frame\<newline>''],
                     trace = [], files = []\<rparr>
       \<and> Avcodec_receive_frame True \<notin> set (trace (snd (main e)))
       \<and> (\<forall>n<length (packets e).
             (\<forall>m<n. continues e (av_find_best_stream e AVMEDIA_TYPE_VIDEO)
                       (start_timestamp (segment opts) (duration opts) (timescale opts))
                       (packets e ! m))
             \<and> pkt_stream_index (packets e ! n) = av_find_best_stream e AVMEDIA_TYPE_VIDEO
             \<and> 0 \<le> send_ret (packets e ! n)
             \<longrightarrow> Avcodec_receive_frame False \<in> set (trace (snd (main e))))"
proof -
  let ?bvs = "av_find_best_stream e AVMEDIA_TYPE_VIDEO"
  let ?start = "start_timestamp (segment opts) (duration opts) (timescale opts)"
  let ?w = "\<lparr>err = [timestamps_line opts, ''Could not allocate frame\<newline>''],
             trace = [], files = []\<rparr>"
  have w: "world_at_loop e opts = ?w"
    using assms(2) by (simp add: world_at_loop_def fprintf_stderr_def world0_def)
  have m: "main e = scan_loop e ?bvs ?start (packets e) ?w"
    using main_reaches [OF assms(1,3)] w by simp
  have no_true: "Avcodec_receive_frame True \<notin> set (trace (snd (main e)))"
    using scan_loop_trace_flag [of True e ?bvs ?start "packets e" ?w] assms(2) m by auto
  have null: "Avcodec_receive_frame False \<in> set (trace (snd (main e)))"
    if n: "n < length (packets e)" "\<forall>m<n. continues e ?bvs ?start (packets e ! m)"
      "pkt_stream_index (packets e ! n) = ?bvs" "0 \<le> send_ret (packets e ! n)" for n
  proof -
    obtain w' where "scan_loop e ?bvs ?start (packets e) ?w
        = scan_loop e ?bvs ?start (packets e ! n # drop (Suc n) (packets e)) w'"
      using scan_loop_reached [OF n(1,2)] by blast
    then show ?thesis
      using scan_loop_receive_step [OF n(3,4), of e ?start "drop (Suc n) (packets e)" w']
        assms(2) m by simp
  qed
  show ?thesis
    using m no_true null by blast
qed

theorem C10_null_frame_goes_on_witness:
  "reaches_scan_loop no_frame_env \<and> \<not> av_frame_alloc no_frame_env
   \<and> parse_options (getopt_results no_frame_env) default_options = Some example_options
   \<and> main no_frame_env
       = (Undefined_behaviour,
          \<lparr>err = [''start_timestamp=60000000;end_timestamp=65000000\<newline>'',
                  ''Could not allocate frame\<newline>''],
           trace = [Av_read_frame, Av_packet_unref,
                    Av_read_frame, Avcodec_send_packet, Avcodec_receive_frame False, Av_packet_unref,
                    Av_read_frame, Avcodec_send_packet, Avcodec_receive_frame False],
           files = []\<rparr>)
   \<and> Avcodec_receive_frame True \<notin> set (trace (snd (main no_frame_env)))"
proof -
  have h1: "reaches_scan_loop no_frame_env"
    by (simp add: reaches_scan_loop_def no_frame_env_sel default_options_def atoi_12)
  have h2: "\<not> av_frame_alloc no_frame_env"
    by (simp add: no_frame_env_sel)
  have h3: "parse_options (getopt_results no_frame_env) default_options = Some example_options"
    by (simp add: no_frame_env_sel default_options_def atoi_12 example_options_def)
  note c = C10_null_frame_goes_on [OF h1 h2 h3]
  have "main no_frame_env
       = (Undefined_behaviour,
          \<lparr>err = [''start_timestamp=60000000;end_timestamp=65000000\<newline>'',
                  ''Could not allocate frame\<newline>''],
           trace = [Av_read_frame, Av_packet_unref,
                    Av_read_frame, Avcodec_send_packet, Avcodec_receive_frame False, Av_packet_unref,
                    Av_read_frame, Avcodec_send_packet, Avcodec_receive_frame False],
           files = []\<rparr>)"
    using c
    by (simp add: no_frame_env_sel example_options_def start_timestamp_12_5_1
        timestamps_line_example [unfolded example_options_def] example_packets_def
        audio_packet_def try_again_packet_def early_packet_def calling_def Let_def)
  then show ?thesis
    using h1 h2 h3 c by simp
qed

section \<open>Further runs, evaluated\<close>

lemma eof_env_sel:
  "getopt_results eof_env = [(CHR ''s'', ''12'')]"
  "operands eof_env = [''in.mkv'']"
  "avformat_open_input eof_env = 0" "avformat_find_stream_info eof_env = 0"
  "av_find_best_stream eof_env AVMEDIA_TYPE_VIDEO = 0"
  "av_find_best_stream eof_env AVMEDIA_TYPE_AUDIO = 1"
  "avcodec_find_decoder eof_env" "avcodec_parameters_to_context eof_env = 0"
  "avcodec_open2 eof_env = 0" "avformat_seek_file eof_env = 0"
  "av_frame_alloc eof_env" "video_time_base eof_env = \<lparr>num = 1, den = 1\<rparr>"
  "averror_eagain eof_env = - 11" "fopen_ok eof_env"
  "packets eof_env = [audio_packet, try_again_packet, early_packet, drained_packet]"
  by (simp_all add: eof_env_def example_env_def)

lemma eof_other_env_sel:
  "getopt_results eof_other_env = [(CHR ''s'', ''12'')]"
  "operands eof_other_env = [''in.mkv'']"
  "avformat_open_input eof_other_env = 0" "avformat_find_stream_info eof_other_env = 0"
  "av_find_best_stream eof_other_env AVMEDIA_TYPE_VIDEO = 1"
  "av_find_best_stream eof_other_env AVMEDIA_TYPE_AUDIO = 0"
  "avcodec_find_decoder eof_other_env" "avcodec_parameters_to_context eof_other_env = 0"
  "avcodec_open2 eof_other_env = 0" "avformat_seek_file eof_other_env = 0"
  "av_frame_alloc eof_other_env" "video_time_base eof_other_env = \<lparr>num = 1, den = 1\<rparr>"
  "averror_eagain eof_other_env = - 11" "fopen_ok eof_other_env"
  "packets eof_other_env = [other_video_packet, drained_packet]"
  by (simp_all add: eof_other_env_def example_env_def)

lemma main_eof_env:
  "main eof_env
     = (Exit 1,
        \<lparr>err = [''start_timestamp=60000000;end_timestamp=65000000\<newline>'',
                ''Didn't get frame\<newline>''],
         trace = [Av_read_frame, Av_packet_unref,
                  Av_read_frame, Avcodec_send_packet, Avcodec_receive_frame True, Av_packet_unref,
                  Av_read_frame, Avcodec_send_packet, Avcodec_receive_frame True, Av_packet_unref,
                  Av_read_frame, Avcodec_send_packet, Avcodec_receive_frame True],
         files = []\<rparr>)"
proof -
  have r: "reaches_scan_loop eof_env"
    by (simp add: reaches_scan_loop_def eof_env_sel default_options_def atoi_12)
  have p: "parse_options (getopt_results eof_env) default_options = Some example_options"
    by (simp add: eof_env_sel default_options_def atoi_12 example_options_def)
  show ?thesis
    using main_reaches [OF r p]
    by (simp add: eof_env_sel example_options_def start_timestamp_12_5_1 world_at_loop_def
        timestamps_line_example [unfolded example_options_def] audio_packet_def
        try_again_packet_def early_packet_def frame_59_def compare_59
        drained_packet_def AVERROR_EOF_def
        calling_def fprintf_stderr_def world0_def Let_def)
qed

lemma main_eof_other_env:
  "main eof_other_env
     = (Return_from_main,
        \<lparr>err = [''start_timestamp=60000000;end_timestamp=65000000\<newline>''],
         trace = [Av_read_frame, Avcodec_send_packet, Avcodec_receive_frame True, Av_packet_unref,
                  Av_read_frame, Av_packet_unref],
         files = []\<rparr>)"
proof -
  have r: "reaches_scan_loop eof_other_env"
    by (simp add: reaches_scan_loop_def eof_other_env_sel default_options_def atoi_12)
  have p: "parse_options (getopt_results eof_other_env) default_options = Some example_options"
    by (simp add: eof_other_env_sel default_options_def atoi_12 example_options_def)
  show ?thesis
    using main_reaches [OF r p]
    by (simp add: eof_other_env_sel example_options_def start_timestamp_12_5_1 world_at_loop_def
        timestamps_line_example [unfolded example_options_def] other_video_packet_def
        frame_59_def compare_59 drained_packet_def AVERROR_EOF_def
        calling_def fprintf_stderr_def world0_def Let_def)
qed


lemma help_env_sel:
  "argv0 help_env = ''vodtool''"
  "getopt_results help_env = [(CHR ''s'', ''12''), (CHR ''h'', [])]"
  by (simp_all add: help_env_def example_env_def)





section \<open>The end of the stream\<close>

text \<open>
  C4 (the code at the failing input). The file ends before a frame at or after the start
  is decoded: the fourth \<open>av_read_frame\<close> fails and leaves a packet whose
  \<open>stream_index\<close> is that of the selected video stream. The result of the read is not
  looked at before the packet is used: the packet is sent to the decoder,
  \<open>avcodec_receive_frame\<close> is called, and its error ends the process with
  \<open>Didn't get frame\<close> and \<open>exit(1)\<close>. The loop does not simply end at the failed
  read.
\<close>

theorem C4_end_of_stream_on_video_index:
  "packets eof_env = [audio_packet, try_again_packet, early_packet, drained_packet]
   \<and> read_ret drained_packet < 0
   \<and> pkt_stream_index drained_packet = av_find_best_stream eof_env AVMEDIA_TYPE_VIDEO
   \<and> main eof_env
       = (Exit 1,
          \<lparr>err = [''start_timestamp=60000000;end_timestamp=65000000\<newline>'',
                  ''Didn't get frame\<newline>''],
           trace = [Av_read_frame, Av_packet_unref,
                    Av_read_frame, Avcodec_send_packet, Avcodec_receive_frame True, Av_packet_unref,
                    Av_read_frame, Avcodec_send_packet, Avcodec_receive_frame True, Av_packet_unref,
                    Av_read_frame, Avcodec_send_packet, Avcodec_receive_frame True],
           files = []\<rparr>)"
  by (simp add: main_eof_env eof_env_sel) (simp add: drained_packet_def AVERROR_EOF_def)

text \<open>
  C1 as stated fails for success in the sense of the exit status: the run on the container
  whose video stream is stream 1 ends, at the failed read, by the return from \<open>main\<close>.
  Its exit status is 0 and it writes no image.
\<close>

theorem C1_status_0_without_image_counterexample:
  "main eof_other_env
     = (Return_from_main,
        \<lparr>err = [''start_timestamp=60000000;end_timestamp=65000000\<newline>''],
         trace = [Av_read_frame, Avcodec_send_packet, Avcodec_receive_frame True, Av_packet_unref,
                  Av_read_frame, Av_packet_unref],
         files = []\<rparr>)
   \<and> exit_status Return_from_main = Some 0"
  by (simp add: main_eof_other_env)

section \<open>The exit status\<close>

text \<open>
  C5 as stated fails: when \<open>av_read_frame\<close> fails on a packet that is not of the video
  stream, the loop ends, \<open>main\<close> returns, the exit status is 0 and no file is written.
\<close>

theorem C5_return_from_main_counterexample:
  "exit_status (fst (main eof_other_env)) = Some 0 \<and> files (snd (main eof_other_env)) = []"
  by (simp add: main_eof_other_env)

text \<open>A failed read of a packet that is not of the video stream ends the loop: \<open>main\<close>
  returns, and nothing is printed.\<close>

lemma scan_loop_failed_read_step:
  assumes "pkt_stream_index it \<noteq> bvs" and "read_ret it < 0"
  shows "scan_loop e bvs start (it # its) w
           = (Return_from_main, calling Av_packet_unref (calling Av_read_frame w))"
  using assms by (simp add: Let_def)

text \<open>
  C5 (as amended). \<open>exit(0)\<close> is called if and only if the frame is written. Every fatal
  condition ends the process with \<open>exit(1)\<close>: a step before the scan loop that fails
  (usage, open, probe, a missing video or audio stream, the decoder, the seek), and, at an
  iteration the loop reaches, a failed \<open>avcodec_send_packet\<close> or an error of
  \<open>avcodec_receive_frame\<close> other than try-again. When, at an iteration the loop reaches,
  \<open>av_read_frame\<close> fails on a packet that is not of the video stream, the loop ends and
  \<open>main\<close> returns: the exit status is 0, no file is written and no diagnostic is added.
  An exit status 0 arises in no other way than \<open>exit(0)\<close> or that return.
\<close>

theorem C5_exit_status:
  assumes "main e = (fin, w)"
  shows "(fin = Exit 0 \<longleftrightarrow> files w \<noteq> [])
       \<and> (\<not> reaches_scan_loop e \<longrightarrow> fin = Exit 1)
       \<and> (\<forall>opts n. parse_options (getopt_results e) default_options = Some opts
             \<and> reaches_scan_loop e \<and> n < length (packets e)
             \<and> (\<forall>m<n. continues e (av_find_best_stream e AVMEDIA_TYPE_VIDEO)
                         (start_timestamp (segment opts) (duration opts) (timescale opts))
                         (packets e ! m))
             \<and> pkt_stream_index (packets e ! n) = av_find_best_stream e AVMEDIA_TYPE_VIDEO
             \<and> (send_ret (packets e ! n) < 0
                  \<or> (receive_ret (packets e ! n) \<noteq> averror_eagain e
                      \<and> receive_ret (packets e ! n) < 0))
             \<longrightarrow> fin = Exit 1)
       \<and> (\<forall>opts n. parse_options (getopt_results e) default_options = Some opts
             \<and> reaches_scan_loop e \<and> n < length (packets e)
             \<and> (\<forall>m<n. continues e (av_find_best_stream e AVMEDIA_TYPE_VIDEO)
                         (start_timestamp (segment opts) (duration opts) (timescale opts))
                         (packets e ! m))
             \<and> pkt_stream_index (packets e ! n) \<noteq> av_find_best_stream e AVMEDIA_TYPE_VIDEO
             \<and> read_ret (packets e ! n) < 0
             \<longrightarrow> fin = Return_from_main \<and> exit_status fin = Some 0 \<and> files w = []
                 \<and> err w = err (world_at_loop e opts))
       \<and> (exit_status fin = Some 0 \<longrightarrow> fin = Exit 0 \<or> fin = Return_from_main)
       \<and> (fin = Return_from_main \<longrightarrow>
             files w = []
             \<and> (\<exists>opts n. parse_options (getopt_results e) default_options = Some opts
                   \<and> n < length (packets e)
                   \<and> (\<forall>m<n. continues e (av_find_best_stream e AVMEDIA_TYPE_VIDEO)
                         (start_timestamp (segment opts) (duration opts) (timescale opts))
                         (packets e ! m))
                   \<and> pkt_stream_index (packets e ! n) \<noteq> av_find_best_stream e AVMEDIA_TYPE_VIDEO
                   \<and> read_ret (packets e ! n) < 0))"
proof (cases "reaches_scan_loop e")
  case False
  then show ?thesis
    using main_fatal [OF False] assms by simp
next
  case True
  then obtain opts where opts: "parse_options (getopt_results e) default_options = Some opts"
    by (auto simp add: reaches_scan_loop_def)
  let ?bvs = "av_find_best_stream e AVMEDIA_TYPE_VIDEO"
  let ?start = "start_timestamp (segment opts) (duration opts) (timescale opts)"
  let ?w0 = "world_at_loop e opts"
  have m: "scan_loop e ?bvs ?start (packets e) ?w0 = (fin, w)"
    using main_reaches [OF True opts] assms by simp
  have a: "fin = Exit 0 \<longleftrightarrow> files w \<noteq> []"
    using scan_loop_files [OF m] by auto
  have b: "fin = Exit 1"
    if n: "n < length (packets e)" "\<forall>m<n. continues e ?bvs ?start (packets e ! m)"
      "pkt_stream_index (packets e ! n) = ?bvs"
      "send_ret (packets e ! n) < 0
         \<or> (receive_ret (packets e ! n) \<noteq> averror_eagain e \<and> receive_ret (packets e ! n) < 0)"
    for n
  proof -
    obtain w' where "scan_loop e ?bvs ?start (packets e) ?w0
        = scan_loop e ?bvs ?start (packets e ! n # drop (Suc n) (packets e)) w'"
      using scan_loop_reached [OF n(1,2)] by blast
    then show ?thesis
      using scan_loop_hard_error_step [OF n(3,4), of ?start "drop (Suc n) (packets e)" w'] m
      by auto
  qed
  have r: "fin = Return_from_main \<and> exit_status fin = Some 0 \<and> files w = [] \<and> err w = err ?w0"
    if n: "n < length (packets e)" "\<forall>m<n. continues e ?bvs ?start (packets e ! m)"
      "pkt_stream_index (packets e ! n) \<noteq> ?bvs" "read_ret (packets e ! n) < 0"
    for n
  proof -
    obtain w' where w': "scan_loop e ?bvs ?start (packets e) ?w0
        = scan_loop e ?bvs ?start (packets e ! n # drop (Suc n) (packets e)) w'"
      "files w' = files ?w0" "err w' = err ?w0"
      using scan_loop_reached [OF n(1,2)] by blast
    have "(fin, w) = (Return_from_main, calling Av_packet_unref (calling Av_read_frame w'))"
      using scan_loop_failed_read_step [OF n(3,4), of e ?start "drop (Suc n) (packets e)" w']
        w'(1) m by simp
    then show ?thesis
      using w'(2,3) by simp
  qed
  have c: "exit_status fin = Some 0 \<longrightarrow> fin = Exit 0 \<or> fin = Return_from_main"
    by (cases fin) auto
  have d: "files w = []
        \<and> (\<exists>n. n < length (packets e) \<and> (\<forall>m<n. continues e ?bvs ?start (packets e ! m))
               \<and> pkt_stream_index (packets e ! n) \<noteq> ?bvs \<and> read_ret (packets e ! n) < 0)"
    if ret: "fin = Return_from_main"
  proof -
    have f: "files w = []"
      using a ret by simp
    from scan_loop_decompose [of e ?bvs ?start "packets e" ?w0]
    obtain n where n: "n < length (packets e)" "\<forall>m<n. continues e ?bvs ?start (packets e ! m)"
      "\<not> continues e ?bvs ?start (packets e ! n)"
      "scan_loop e ?bvs ?start [packets e ! n]
          (?w0\<lparr>trace := trace ?w0 @ concat (map (pass_trace e ?bvs) (take n (packets e)))\<rparr>)
         = (fin, w)"
      using m ret by auto
    have "pkt_stream_index (packets e ! n) \<noteq> ?bvs \<and> read_ret (packets e ! n) < 0"
      using scan_loop_last(3) [OF n(4,3)] ret by simp
    then show ?thesis
      using f n(1,2) by blast
  qed
  have same: "opts' = opts"
    if "parse_options (getopt_results e) default_options = Some opts'" for opts'
    using that opts by simp
  have b': "fin = Exit 1"
    if "parse_options (getopt_results e) default_options = Some opts'"
      "n < length (packets e)"
      "\<forall>m<n. continues e ?bvs (start_timestamp (segment opts') (duration opts') (timescale opts'))
                 (packets e ! m)"
      "pkt_stream_index (packets e ! n) = ?bvs"
      "send_ret (packets e ! n) < 0
         \<or> (receive_ret (packets e ! n) \<noteq> averror_eagain e \<and> receive_ret (packets e ! n) < 0)"
    for opts' n
    using b [of n] that same [OF that(1)] by simp
  have r': "fin = Return_from_main \<and> exit_status fin = Some 0 \<and> files w = []
            \<and> err w = err (world_at_loop e opts')"
    if "parse_options (getopt_results e) default_options = Some opts'"
      "n < length (packets e)"
      "\<forall>m<n. continues e ?bvs (start_timestamp (segment opts') (duration opts') (timescale opts'))
                 (packets e ! m)"
      "pkt_stream_index (packets e ! n) \<noteq> ?bvs" "read_ret (packets e ! n) < 0"
    for opts' n
    using r [of n] that same [OF that(1)] by simp
  have d': "files w = []
        \<and> (\<exists>opts n. parse_options (getopt_results e) default_options = Some opts
               \<and> n < length (packets e)
               \<and> (\<forall>m<n. continues e ?bvs
                           (start_timestamp (segment opts) (duration opts) (timescale opts))
                           (packets e ! m))
               \<and> pkt_stream_index (packets e ! n) \<noteq> ?bvs \<and> read_ret (packets e ! n) < 0)"
    if "fin = Return_from_main"
    using d [OF that] opts by blast
  show ?thesis
    by (intro conjI allI impI) (use a b' r' c d' True in \<open>blast+\<close>)
qed

theorem C5_exit_status_witness:
  "main example_env = (Exit 0, example_world) \<and> files example_world \<noteq> []
   \<and> \<not> reaches_scan_loop help_env \<and> fst (main help_env) = Exit 1
   \<and> send_ret drained_packet = 0 \<and> receive_ret drained_packet < 0
   \<and> fst (main eof_env) = Exit 1
   \<and> pkt_stream_index drained_packet \<noteq> av_find_best_stream eof_other_env AVMEDIA_TYPE_VIDEO
   \<and> read_ret drained_packet < 0
   \<and> fst (main eof_other_env) = Return_from_main \<and> files (snd (main eof_other_env)) = []"
proof -
  have h: "\<not> reaches_scan_loop help_env"
    by (simp add: reaches_scan_loop_def help_env_sel default_options_def)
  have "fst (main help_env) = Exit 1"
    using C5_exit_status [of help_env "fst (main help_env)" "snd (main help_env)"] h by simp
  moreover have "files example_world \<noteq> []"
    using C5_exit_status [OF main_example] by simp
  moreover have "files (snd (main eof_other_env)) = []"
    using C5_exit_status [of eof_other_env "fst (main eof_other_env)" "snd (main eof_other_env)"]
    by (simp add: main_eof_other_env)
  ultimately show ?thesis
    using h by (simp add: main_example main_eof_env main_eof_other_env drained_packet_def
        AVERROR_EOF_def eof_other_env_sel)
qed

section \<open>Arguments\<close>





section \<open>The output file\<close>

lemma fwrite_row_Some:
  assumes "fwrite_row buf off xsize = Some r"
  shows "r = take (nat xsize) (drop (nat (addr buf + off)) (mem buf))"
    and "int (length r) = xsize"
  using assms by (auto simp add: fwrite_row_def split: if_splits)

lemma fwrite_rows_Some:
  assumes "fwrite_rows buf wrap xsize ysize i = Some rows" "0 \<le> i"
  shows "rows = concat (map (\<lambda>k. take (nat xsize) (drop (nat (addr buf + int k * wrap)) (mem buf)))
                          [nat i..<nat ysize])
       \<and> int (length rows) = xsize * (if i < ysize then ysize - i else 0)"
  using assms
proof (induction buf wrap xsize ysize i arbitrary: rows rule: fwrite_rows.induct)
  case (1 buf wrap xsize ysize i)
  show ?case
  proof (cases "i < ysize")
    case False
    then have "rows = []"
      using "1.prems"(1) by (subst (asm) fwrite_rows.simps) simp
    then show ?thesis
      using False by simp
  next
    case True
    from "1.prems"(1) obtain r rs where r: "fwrite_row buf (i * wrap) xsize = Some r"
      and rs: "fwrite_rows buf wrap xsize ysize (i + 1) = Some rs"
      and rows: "rows = r @ rs"
      using True by (subst (asm) fwrite_rows.simps) (auto split: option.splits)
    have ih: "rs = concat (map (\<lambda>k. take (nat xsize) (drop (nat (addr buf + int k * wrap)) (mem buf)))
                          [nat (i + 1)..<nat ysize])
       \<and> int (length rs) = xsize * (if i + 1 < ysize then ysize - (i + 1) else 0)"
      by (rule "1.IH" [OF True r rs]) (use "1.prems"(2) in simp)
    have ih1: "rs = concat (map (\<lambda>k. take (nat xsize) (drop (nat (addr buf + int k * wrap)) (mem buf)))
                          [nat (i + 1)..<nat ysize])"
      using ih by (rule conjunct1)
    have ih2: "int (length rs) = xsize * (ysize - (i + 1))"
      using conjunct2 [OF ih] True by (cases "i + 1 < ysize") auto
    have r1: "r = take (nat xsize) (drop (nat (addr buf + int (nat i) * wrap)) (mem buf))"
      using fwrite_row_Some(1) [OF r] "1.prems"(2) by simp
    have r2: "int (length r) = xsize"
      by (rule fwrite_row_Some(2) [OF r])
    have upt: "[nat i..<nat ysize] = nat i # [nat (i + 1)..<nat ysize]"
      using True "1.prems"(2) by (simp add: upt_conv_Cons nat_add_distrib)
    have "int (length rows) = int (length r) + int (length rs)"
      unfolding rows by simp
    also have "\<dots> = xsize * (ysize - i)"
      unfolding r2 ih2 by (simp add: algebra_simps)
    finally have len: "int (length rows) = xsize * (if i < ysize then ysize - i else 0)"
      using True by simp
    have "rows = concat (map (\<lambda>k. take (nat xsize) (drop (nat (addr buf + int k * wrap)) (mem buf)))
                          [nat i..<nat ysize])"
      unfolding upt rows using r1 ih1 by simp
    then show ?thesis
      using len by (rule conjI)
  qed
qed

lemma pgm_save_Some:
  assumes "pgm_save ok (data0 f) (linesize0 f) (width f) (height f) name = Some (name', contents)"
    and "0 \<le> height f"
  shows "name' = name
       \<and> contents = ''P5\<newline>'' @ show_int (width f) @ '' '' @ show_int (height f)
                      @ ''\<newline>255\<newline>'' @ luma_rows f
       \<and> int (length (luma_rows f)) = width f * height f"
proof -
  obtain rows where rows: "fwrite_rows (data0 f) (linesize0 f) (width f) (height f) 0 = Some rows"
    and c: "name' = name" "contents = pgm_header (width f) (height f) @ rows"
    using assms(1) by (auto simp add: pgm_save_def split: if_splits option.splits)
  have fr: "rows = concat (map (\<lambda>k. take (nat (width f))
                                    (drop (nat (addr (data0 f) + int k * linesize0 f))
                                       (mem (data0 f))))
                          [nat 0..<nat (height f)])
       \<and> int (length rows) = width f * (if 0 < height f then height f - 0 else 0)"
    by (rule fwrite_rows_Some [OF rows order_refl])
  have e1: "rows = luma_rows f"
    using conjunct1 [OF fr] by (simp add: luma_rows_def)
  have e2: "int (length rows) = width f * height f"
    using conjunct2 [OF fr] assms(2) by (cases "0 < height f") simp_all
  have l: "int (length (luma_rows f)) = width f * height f"
    using e2 unfolding e1 .
  have "show_int 255 = ''255''"
    by (simp add: show_int_def digit_char_def)
  then have "contents = ''P5\<newline>'' @ show_int (width f) @ '' '' @ show_int (height f)
                      @ ''\<newline>255\<newline>'' @ luma_rows f"
    using c(2) e1 by (simp add: pgm_header_def)
  then show ?thesis
    using c(1) l by simp
qed

text \<open>
  C9. A file written by a run is \<open>test.pgm\<close> and consists of the header
  \<open>P5\<newline>width height\<newline>255\<newline>\<close>, with the width and height of the decoded frame that was
  saved printed in decimal, followed by the rows of that frame, row \<open>i\<close> read at
  \<open>data[0] + i * linesize[0]\<close> (upwards or, for a frame stored bottom-up, downwards in
  memory): exactly \<open>width * height\<close> bytes. (Frames have a non-negative height.)
\<close>

theorem C9_pgm_file_layout:
  assumes "main e = (fin, w)" and "(name, contents) \<in> set (files w)"
    and "\<forall>it\<in>set (packets e). 0 \<le> height (decoded it)"
  shows "\<exists>n<length (packets e).
           decodes e (av_find_best_stream e AVMEDIA_TYPE_VIDEO) (packets e ! n)
         \<and> files w = [(name, contents)]
         \<and> name = ''test.pgm''
         \<and> contents = ''P5\<newline>'' @ show_int (width (decoded (packets e ! n))) @ '' ''
                        @ show_int (height (decoded (packets e ! n))) @ ''\<newline>255\<newline>''
                        @ luma_rows (decoded (packets e ! n))
         \<and> int (length (luma_rows (decoded (packets e ! n))))
              = width (decoded (packets e ! n)) * height (decoded (packets e ! n))"
proof -
  have "files w \<noteq> []"
    using assms(2) by auto
  from main_saved [OF assms(1) this]
  obtain n out where n: "n < length (packets e)"
    "decodes e (av_find_best_stream e AVMEDIA_TYPE_VIDEO) (packets e ! n)"
    "pgm_save (fopen_ok e) (data0 (decoded (packets e ! n)))
              (linesize0 (decoded (packets e ! n))) (width (decoded (packets e ! n)))
              (height (decoded (packets e ! n))) ''test.pgm'' = Some out"
    "files w = [out]"
    by blast
  have out: "out = (name, contents)"
    using assms(2) n(4) by simp
  have "packets e ! n \<in> set (packets e)"
    using n(1) by simp
  then have h: "0 \<le> height (decoded (packets e ! n))"
    using assms(3) by blast
  show ?thesis
    using pgm_save_Some [OF n(3) [unfolded out] h] n(1,2,4) out by blast
qed

theorem C9_pgm_file_layout_witness:
  "main example_env = (Exit 0, example_world)
   \<and> (''test.pgm'', ''P5\<newline>3 2\<newline>255\<newline>abcdef'') \<in> set (files example_world)
   \<and> list_all (\<lambda>it. 0 \<le> height (decoded it)) (packets example_env)
   \<and> (\<exists>n<length (packets example_env).
         ''P5\<newline>3 2\<newline>255\<newline>abcdef''
            = ''P5\<newline>'' @ show_int (width (decoded (packets example_env ! n))) @ '' ''
                @ show_int (height (decoded (packets example_env ! n))) @ ''\<newline>255\<newline>''
                @ luma_rows (decoded (packets example_env ! n))
         \<and> int (length (luma_rows (decoded (packets example_env ! n))))
              = width (decoded (packets example_env ! n))
                  * height (decoded (packets example_env ! n)))
   \<and> main bottom_up_env = (Exit 0, bottom_up_world)
   \<and> linesize0 bottom_up_frame_60 < 0
   \<and> (''test.pgm'', ''P5\<newline>3 2\<newline>255\<newline>abcdef'') \<in> set (files bottom_up_world)
   \<and> ''P5\<newline>3 2\<newline>255\<newline>abcdef''
         = ''P5\<newline>'' @ show_int (width bottom_up_frame_60) @ '' ''
             @ show_int (height bottom_up_frame_60) @ ''\<newline>255\<newline>''
             @ luma_rows bottom_up_frame_60
   \<and> int (length (luma_rows bottom_up_frame_60))
         = width bottom_up_frame_60 * height bottom_up_frame_60"
proof -
  have h2: "(''test.pgm'', ''P5\<newline>3 2\<newline>255\<newline>abcdef'') \<in> set (files example_world)"
    by (simp add: example_world_def)
  have h3: "\<forall>it\<in>set (packets example_env). 0 \<le> height (decoded it)"
    by (simp add: example_env_sel example_packets_def audio_packet_def try_again_packet_def
        early_packet_def target_packet_def frame_59_def frame_60_def)
  have b2: "(''test.pgm'', ''P5\<newline>3 2\<newline>255\<newline>abcdef'') \<in> set (files bottom_up_world)"
    by (simp add: bottom_up_world_def)
  have b3: "\<forall>it\<in>set (packets bottom_up_env). 0 \<le> height (decoded it)"
    by (simp add: bottom_up_env_sel bottom_up_packet_def bottom_up_frame_60_def)
  have b4: "linesize0 bottom_up_frame_60 < 0"
    by (simp add: bottom_up_frame_60_def)
  have "\<exists>n<length (packets bottom_up_env).
          ''P5\<newline>3 2\<newline>255\<newline>abcdef''
            = ''P5\<newline>'' @ show_int (width (decoded (packets bottom_up_env ! n))) @ '' ''
                @ show_int (height (decoded (packets bottom_up_env ! n))) @ ''\<newline>255\<newline>''
                @ luma_rows (decoded (packets bottom_up_env ! n))
          \<and> int (length (luma_rows (decoded (packets bottom_up_env ! n))))
              = width (decoded (packets bottom_up_env ! n))
                  * height (decoded (packets bottom_up_env ! n))"
    using C9_pgm_file_layout [OF main_bottom_up b2 b3] by blast
  then have b: "''P5\<newline>3 2\<newline>255\<newline>abcdef''
         = ''P5\<newline>'' @ show_int (width bottom_up_frame_60) @ '' ''
             @ show_int (height bottom_up_frame_60) @ ''\<newline>255\<newline>''
             @ luma_rows bottom_up_frame_60
      \<and> int (length (luma_rows bottom_up_frame_60))
         = width bottom_up_frame_60 * height bottom_up_frame_60"
    by (simp add: bottom_up_env_sel bottom_up_packet_def)
  show ?thesis
    using main_example h2 h3 main_bottom_up b2 b4 b
      C9_pgm_file_layout [OF main_example h2 h3]
    by (simp only: list_all_iff) blast
qed

section \<open>Rounded timestamps\<close>

lemma int_le_div:
  fixes S x c :: int
  assumes "0 < c" "S * c \<le> x"
  shows "S \<le> x div c"
proof -
  have "(S * c) div c \<le> x div c"
    using assms by (intro zdiv_mono1)
  then show ?thesis
    using assms(1) by simp
qed

lemma rescaled_cross:
  assumes "0 < sint (den tb)"
  shows "(real_of_int S \<le> rescaled ts tb)
           = (S * sint (den tb) \<le> sint ts * (sint (num tb) * 1000000))"
proof -
  let ?n = "sint ts * (sint (num tb) * 1000000)"
  let ?d = "sint (den tb)"
  have "rescaled ts tb = real_of_int ?n / real_of_int ?d"
    by (simp add: rescaled_def sint_AV_TIME_BASE)
  then have "(real_of_int S \<le> rescaled ts tb) = (real_of_int S \<le> real_of_int ?n / real_of_int ?d)"
    by simp
  also have "\<dots> = (real_of_int S * real_of_int ?d \<le> real_of_int ?n)"
    using assms by (simp only: pos_le_divide_eq of_int_0_less_iff)
  also have "\<dots> = (S * ?d \<le> ?n)"
    by (simp only: of_int_mult [symmetric] of_int_le_iff)
  finally show ?thesis .
qed

text \<open>Rounding to the nearest tick keeps a timestamp at or after an integer bound, unless
  the framework reports the value as not representable.\<close>

lemma to_av_timebase_lower:
  assumes "0 \<le> sint (num tb)" "0 < sint (den tb)"
    and "real_of_int S \<le> rescaled ts tb"
    and "sint (to_av_timebase ts tb) \<noteq> INT64_MIN"
  shows "S \<le> sint (to_av_timebase ts tb)"
proof -
  define a where "a = sint ts"
  define b where "b = sint (num tb) * 1000000"
  define c where "c = sint (den tb)"
  define a' where "a' = max a (- INT64_MAX)"
  define m where "m = (\<bar>a'\<bar> * b + c div 2) div c"
  have b0: "0 \<le> b" and c0: "0 < c"
    using assms(1,2) by (simp_all add: b_def c_def)
  have Sc: "S * c \<le> a * b"
    using assms(3) rescaled_cross [OF assms(2), of S ts] by (simp add: a_def b_def c_def)
  have t: "to_av_timebase ts tb = word_of_int (av_rescale_near_inf a b c)"
    by (simp add: to_av_timebase_def av_rescale_q_def sint_AV_TIME_BASE a_def b_def c_def)
  have near: "av_rescale_near_inf a b c
                = (if m > INT64_MAX then INT64_MIN else if a < 0 then - m else m)"
    using b0 c0 by (simp add: av_rescale_near_inf_def Let_def m_def a'_def)
  have min: "sint (word_of_int INT64_MIN :: 64 word) = INT64_MIN"
    by (rule sint_word_of_int_64) (simp_all add: INT64_MIN_def INT64_MAX_def)
  have m_le: "m \<le> INT64_MAX"
  proof (rule ccontr)
    assume "\<not> m \<le> INT64_MAX"
    then have "av_rescale_near_inf a b c = INT64_MIN"
      using near by simp
    then show False
      using assms(4) t min by simp
  qed
  have "0 \<le> \<bar>a'\<bar> * b + c div 2"
    using b0 c0 by (simp add: pos_imp_zdiv_nonneg_iff)
  then have m0: "0 \<le> m"
    using c0 by (simp add: m_def pos_imp_zdiv_nonneg_iff)
  show ?thesis
  proof (cases "a < 0")
    case False
    then have aa: "\<bar>a'\<bar> = a"
      by (simp add: a'_def INT64_MAX_def max_def)
    have nv: "av_rescale_near_inf a b c = m"
      using near False m_le by simp
    have "sint (word_of_int m :: 64 word) = m"
      by (rule sint_word_of_int_64) (use m_le m0 in \<open>simp_all add: INT64_MIN_def\<close>)
    then have v: "sint (to_av_timebase ts tb) = m"
      unfolding t nv .
    have "S \<le> (a * b) div c"
      by (rule int_le_div [OF c0 Sc])
    also have "\<dots> \<le> (a * b + c div 2) div c"
      using c0 by (intro zdiv_mono1) (simp_all add: pos_imp_zdiv_nonneg_iff)
    finally show ?thesis
      unfolding v m_def aa .
  next
    case True
    have a'neg: "a' < 0" "a \<le> a'"
      using True by (simp_all add: a'_def INT64_MAX_def max_def)
    then have "\<bar>a'\<bar> \<le> - a"
      by simp
    then have "\<bar>a'\<bar> * b \<le> (- a) * b"
      using b0 by (rule mult_right_mono)
    also have "\<dots> \<le> (- S) * c"
      using Sc by simp
    finally have "\<bar>a'\<bar> * b + c div 2 \<le> (- S) * c + c div 2"
      by simp
    then have "m \<le> ((- S) * c + c div 2) div c"
      unfolding m_def using c0 by (intro zdiv_mono1)
    also have "\<dots> = - S + (c div 2) div c"
      using c0 by (subst div_mult_self3) simp_all
    also have "(c div 2) div c = 0"
      using c0 by (intro div_pos_pos_trivial) simp_all
    finally have mS: "m \<le> - S" by simp
    have nv: "av_rescale_near_inf a b c = - m"
      using near True m_le by simp
    have "sint (word_of_int (- m) :: 64 word) = - m"
      by (rule sint_word_of_int_64) (use m_le m0 in \<open>simp_all add: INT64_MIN_def INT64_MAX_def\<close>)
    then have v: "sint (to_av_timebase ts tb) = - m"
      unfolding t nv .
    show ?thesis
      unfolding v using mS by simp
  qed
qed

section \<open>Consecutive segments\<close>

text \<open>
  C6. The start timestamp of segment \<open>s + 1\<close> is the end timestamp of segment \<open>s\<close> (both
  are \<open>to_av_timebase (s + 1, {duration, timescale})\<close>), for every timescale and so for
  timescale 1. Hence the frame saved by a run for segment \<open>s + 1\<close> has a presentation
  timestamp that, rescaled to the global time base, is at or after the end timestamp of
  segment \<open>s\<close>: as the exact rational value, and also rounded to whole ticks by
  \<open>to_av_timebase\<close> (the value the program prints) when that is representable.
\<close>

theorem C6_next_segment_starts_at_end:
  assumes "main e = (fin, w)" and "files w \<noteq> []"
    and "parse_options (getopt_results e) default_options = Some opts"
    and "segment opts = s + 1"
    and "0 < sint (den (video_time_base e))"
  shows "start_timestamp (segment opts) (duration opts) (timescale opts)
           = end_timestamp s (duration opts) (timescale opts)
       \<and> (\<exists>n out. n < length (packets e) \<and> files w = [out]
             \<and> pgm_save True (data0 (decoded (packets e ! n)))
                  (linesize0 (decoded (packets e ! n))) (width (decoded (packets e ! n)))
                  (height (decoded (packets e ! n))) ''test.pgm'' = Some out
             \<and> real_of_int (sint (end_timestamp s (duration opts) (timescale opts)))
                  \<le> rescaled (pts (decoded (packets e ! n))) (video_time_base e)
             \<and> (0 \<le> sint (num (video_time_base e))
                  \<and> sint (to_av_timebase (pts (decoded (packets e ! n))) (video_time_base e))
                        \<noteq> INT64_MIN
                  \<longrightarrow> sint (end_timestamp s (duration opts) (timescale opts))
                        \<le> sint (to_av_timebase (pts (decoded (packets e ! n)))
                                  (video_time_base e))))"
proof -
  have eq: "start_timestamp (segment opts) (duration opts) (timescale opts)
           = end_timestamp s (duration opts) (timescale opts)"
    using assms(4) by (simp add: start_timestamp_def end_timestamp_def)
  from main_saved [OF assms(1,2)]
  obtain opts' n out where o: "parse_options (getopt_results e) default_options = Some opts'"
    "n < length (packets e)"
    "0 \<le> av_compare_ts (pts (decoded (packets e ! n))) (video_time_base e)
                  (start_timestamp (segment opts') (duration opts') (timescale opts'))
                  \<lparr>num = 1, den = AV_TIME_BASE\<rparr>"
    "pgm_save (fopen_ok e) (data0 (decoded (packets e ! n)))
              (linesize0 (decoded (packets e ! n))) (width (decoded (packets e ! n)))
              (height (decoded (packets e ! n))) ''test.pgm'' = Some out"
    "files w = [out]"
    by blast
  have same: "opts' = opts"
    using o(1) assms(3) by simp
  have fo: "fopen_ok e"
    using o(4) by (auto simp add: pgm_save_def split: if_splits)
  have ge: "real_of_int (sint (end_timestamp s (duration opts) (timescale opts)))
          \<le> rescaled (pts (decoded (packets e ! n))) (video_time_base e)"
    using o(3) compare_rescaled [OF assms(5)] same eq by simp
  have rounded: "sint (end_timestamp s (duration opts) (timescale opts))
          \<le> sint (to_av_timebase (pts (decoded (packets e ! n))) (video_time_base e))"
    if "0 \<le> sint (num (video_time_base e))"
      "sint (to_av_timebase (pts (decoded (packets e ! n))) (video_time_base e)) \<noteq> INT64_MIN"
    by (rule to_av_timebase_lower [OF that(1) assms(5) ge that(2)])
  show ?thesis
    using eq o(2,4,5) fo ge rounded by auto
qed

theorem C6_next_segment_starts_at_end_witness:
  "main example_env = (Exit 0, example_world) \<and> files example_world \<noteq> []
   \<and> parse_options (getopt_results example_env) default_options = Some example_options
   \<and> segment example_options = 11 + 1
   \<and> 0 < sint (den (video_time_base example_env))
   \<and> start_timestamp 12 5 1 = end_timestamp 11 5 1
   \<and> (\<exists>n out. n < length (packets example_env) \<and> files example_world = [out]
         \<and> real_of_int (sint (end_timestamp 11 5 1))
              \<le> rescaled (pts (decoded (packets example_env ! n))) (video_time_base example_env))"
proof -
  have h2: "files example_world \<noteq> []"
    by (simp add: example_world_def)
  have h4: "segment example_options = 11 + 1"
    by (simp add: example_options_def)
  have h5: "0 < sint (den (video_time_base example_env))"
    by (simp add: example_env_sel)
  have o: "duration example_options = 5" "timescale example_options = 1"
    "segment example_options = 12"
    by (simp_all add: example_options_def)
  show ?thesis
    using main_example h2 parse_example h4 h5
      C6_next_segment_starts_at_end [OF main_example h2 parse_example h4 h5, unfolded o]
    by blast
qed

end
